theory Spec2Isabelle
  imports Complex_Main "HOL-Library.AList" "HOL-Library.Multiset"
begin

section \<open>Errors\<close>

text \<open>
  Every exception the modelled code can raise is a value of \<open>py_error\<close>.
  \<open>NotReady\<close> is the \<open>AssertionError\<close> of \<open>assert self.ready\<close> in \<open>Run.run\<close>;
  \<open>AssertionFailed\<close> is any other failed \<open>assert\<close>, carrying the asserted text.
  \<open>Uncaught\<close>, \<open>SearchError\<close> and \<open>DuplicateTrial\<close> are the exceptions that propagate
  out of the collaborators of \<open>Run\<close> (evaluation pool, search, result database).
\<close>

datatype py_error =
    NotReady
  | AssertionFailed string
  | AttributeError string
  | KeyError
  | ZeroDivisionError
  | Exception string
  | Uncaught string string
  | SearchError string
  | DuplicateTrial nat

section \<open>\<open>property_converter.convert\<close>\<close>

text \<open>
  The data object: \<open>data.family\<close>, \<open>data.name\<close> and the dictionary \<open>data.p\<close>.
  Property values are Python floats, idealised as reals; a float division by zero raises
  \<open>ZeroDivisionError\<close>, written out in \<open>py_truediv\<close>.
\<close>

record dataset =
  d_family :: string
  d_name :: string
  d_p :: "string \<rightharpoonup> real"

definition py_truediv :: "real \<Rightarrow> real \<Rightarrow> py_error + real" where
  "py_truediv a b = (if b = 0 then Inl ZeroDivisionError else Inr (a / b))"

definition cant_convert :: "string \<Rightarrow> string \<Rightarrow> string" where
  "cant_convert origin target = ''Can't convert '' @ origin @ '' to '' @ target"

definition convert :: "dataset \<Rightarrow> real \<Rightarrow> string \<Rightarrow> string \<Rightarrow> py_error + real" where
  "convert data prop_v origin target =
     (if origin = target then Inr prop_v
      else if d_family data = ''kaggle'' then
        (if target = ''fe'' then
           (if origin = ''fec'' then
              (case d_p data ''n_atoms'' of
                 None \<Rightarrow> Inl (AssertionFailed '''n_atoms' in data.p'')
               | Some n_atoms \<Rightarrow> py_truediv prop_v n_atoms)
            else if origin = ''fecreal'' then
              (case d_p data ''n_sub'' of
                 None \<Rightarrow> Inl (AssertionFailed '''n_sub' in data.p'')
               | Some n_sub \<Rightarrow> py_truediv prop_v n_sub)
            else if origin = ''fepa'' then
              (case d_p data ''n_atoms'' of
                 None \<Rightarrow> Inl (AssertionFailed '''n_atoms' in data.p'')
               | Some n_atoms \<Rightarrow>
                   (case d_p data ''n_sub'' of
                      None \<Rightarrow> Inl (AssertionFailed '''n_sub' in data.p'')
                    | Some n_sub \<Rightarrow> py_truediv (prop_v * n_atoms) n_sub))
            else Inl (Exception (cant_convert origin target)))
         else if target = ''fsb'' then Inr prop_v
         else Inl (Exception (cant_convert origin target)))
      else Inl (Exception (d_name data)))"

section \<open>\<open>cmlkit.engine.caching.memcached\<close>\<close>

text \<open>
  The attributes of a \<open>memcached\<close> object. \<open>self.cache\<close> is a Python dict from hash keys
  to two-element lists \<open>[counter, value]\<close>; a dict iterates in insertion order, assigning
  to an existing key keeps its position, so it is an association list handled with
  \<open>AList.update\<close> and \<open>AList.delete\<close>. The counters are Python ints.
  \<open>self.f\<close> is set once by the constructor and never reassigned, and \<open>fast_hash\<close> is
  imported from \<open>cmlkit.engine.hashing\<close>, which is not among the sources: both are
  parameters (\<open>f\<close>, \<open>fast_hash\<close>) of \<open>memcached_call\<close>. The argument tuple
  \<open>(*args, **kwargs)\<close> is one value of type \<open>'a\<close>. \<open>self.hashf\<close> is never used.
\<close>

record ('k, 'v) memcached =
  max_entries :: int
  cache :: "('k \<times> (int \<times> 'v)) list"
  lruc :: int
  hits :: int
  misses :: int
  total_hits :: int
  total_misses :: int

definition memcached_init :: "int \<Rightarrow> ('k, 'v) memcached" where
  "memcached_init m =
     \<lparr>max_entries = m, cache = [], lruc = 0, hits = 0, misses = 0,
      total_hits = 0, total_misses = 0\<rparr>"

text \<open>
  The scan of lines 58 to 61: \<open>(c, k)\<close> starts as \<open>(self.lruc, key)\<close> and moves to every
  item whose counter is strictly below the current \<open>c\<close>.
\<close>

fun evict_scan :: "('k \<times> (int \<times> 'v)) list \<Rightarrow> int \<times> 'k \<Rightarrow> int \<times> 'k" where
  "evict_scan [] ck = ck"
| "evict_scan ((k', (c', v')) # items) (c, k) =
     (if c' < c then evict_scan items (c', k') else evict_scan items (c, k))"

definition memcached_call ::
  "('a \<Rightarrow> 'v) \<Rightarrow> ('a \<Rightarrow> 'k) \<Rightarrow> ('k, 'v) memcached \<Rightarrow> 'a \<Rightarrow> 'v \<times> ('k, 'v) memcached" where
  "memcached_call f fast_hash mc args =
     (let key = fast_hash args in
      case map_of (cache mc) key of
        Some item \<Rightarrow>
          (snd item,
           mc\<lparr>total_hits := total_hits mc + 1, hits := hits mc + 1,
              cache := AList.update key (lruc mc, snd item) (cache mc),
              lruc := lruc mc + 1\<rparr>)
      | None \<Rightarrow>
          (let v = f args;
               cache1 = AList.update key (lruc mc, v) (cache mc);
               lruc1 = lruc mc + 1;
               cache2 = (if int (length cache1) > max_entries mc
                         then AList.delete (snd (evict_scan cache1 (lruc1, key))) cache1
                         else cache1)
           in (v, mc\<lparr>total_misses := total_misses mc + 1, misses := misses mc + 1,
                      cache := cache2, lruc := lruc1\<rparr>)))"

definition clear_cache :: "('k, 'v) memcached \<Rightarrow> ('k, 'v) memcached" where
  "clear_cache mc = mc\<lparr>cache := [], hits := 0, misses := 0\<rparr>"

text \<open>A sequence of calls on one object: the values returned, and the object afterwards.\<close>

fun memcached_calls ::
  "('a \<Rightarrow> 'v) \<Rightarrow> ('a \<Rightarrow> 'k) \<Rightarrow> ('k, 'v) memcached \<Rightarrow> 'a list \<Rightarrow> 'v list \<times> ('k, 'v) memcached" where
  "memcached_calls f fast_hash mc [] = ([], mc)"
| "memcached_calls f fast_hash mc (a # as) =
     (let (v, mc1) = memcached_call f fast_hash mc a;
          (vs, mc2) = memcached_calls f fast_hash mc1 as
      in (v # vs, mc2))"

section \<open>\<open>cmlkit.tune.run.Run\<close>: data\<close>

text \<open>
  A trial identifier and a future (the handle of one in-flight evaluation, compared by
  object identity in Python) are opaque; both are numbers here. A path is the list of its
  components, so \<open>directory / x\<close> is \<open>directory @ [x]\<close>. A configuration is a nested
  mapping; the empty dict \<open>{}\<close> is \<open>CDict []\<close>.
\<close>

type_synonym tid = nat
type_synonym fid = nat
type_synonym path = "string list"

datatype config =
    CNone
  | CNum real
  | CStr string
  | CList "config list"
  | CDict "(string \<times> config) list"

datatype 'v trial_result = Success 'v | Failure string string

datatype 'v proc_outcome = Returned 'v | TimedOut | Threw string string

datatype 'v event =
    Suggested tid config
  | Completed tid "'v trial_result"
  | Failed tid "'v trial_result"

text \<open>
  \<open>State\<close> (\<open>cmlkit/tune/run/state.py\<close>, not among the sources) holds the search, the
  result database and the tape. A database entry is a trial identifier with its result, in
  submission order; the configuration of an entry is the one issued with its identifier.
\<close>

record ('v, 's) state =
  search :: 's
  evals :: "(tid \<times> 'v trial_result) list"
  tape :: "'v event list"

text \<open>
  The behaviour of the collaborators whose code is not among the sources, as parameters:
  the Stopper's \<open>done(state)\<close>, which may also read ambient data of type \<open>'w\<close> (the
  clock of a wall-clock stopper); the Search's \<open>suggest\<close> (a message when it raises),
  its feedback hook and \<open>get_config\<close>; the Stopper's \<open>get_config\<close>; what the worker
  process of a future ends with; the two ranking queries of the result database; and
  \<open>cmlkit.utility.humanize\<close>.
\<close>

record ('v, 's, 'w) collab =
  stop_done :: "'w \<Rightarrow> ('v, 's) state \<Rightarrow> bool"
  stop_get_config :: config
  search_suggest :: "'s \<Rightarrow> string + (tid \<times> config \<times> 's)"
  search_observe :: "'s \<Rightarrow> tid \<Rightarrow> 'v trial_result \<Rightarrow> 's"
  search_get_config :: "'s \<Rightarrow> config"
  process_outcome :: "fid \<Rightarrow> 'v proc_outcome"
  top_suggestions :: "(tid \<times> 'v trial_result) list \<Rightarrow> config list"
  top_refined_suggestions :: "(tid \<times> 'v trial_result) list \<Rightarrow> config list"
  humanize :: "string \<Rightarrow> string"

record pool =
  pool_max_workers :: int
  pool_evaluator_config :: config
  pool_trial_timeout :: "real option"
  pool_caught_exceptions :: "string list"
  launched :: "config list"
  shut_down :: bool

text \<open>
  The files a run writes. \<open>save_yaml\<close> stores the object it is given, not its text.
\<close>

datatype 'v content = ConfigFile config | TapeFile "'v event list"

record 'v disk =
  dirs :: "path set"
  files :: "path \<rightharpoonup> 'v content"

text \<open>
  The attributes of a \<open>Run\<close>. \<open>name\<close> is \<open>None\<close> while the attribute \<open>self.name\<close>
  has never been assigned, and so are \<open>work_directory\<close>, \<open>pool\<close> and \<open>state\<close>, which
  only \<open>prepare\<close> assigns. \<open>max_workers\<close>, \<open>shutdown_duration\<close> and \<open>wait_per_loop\<close>
  are the entries of \<open>self.context\<close>. After \<open>prepare\<close> the search object is shared with
  the \<open>State\<close>; the live one is \<open>search\<close> of \<open>state\<close>. Times are Python floats,
  idealised as reals.
\<close>

record ('v, 's) run =
  run_search :: 's
  evaluator_config :: config
  trial_timeout :: "real option"
  caught_exceptions :: "string list"
  run_id :: string
  name :: "string option"
  ready :: bool
  max_workers :: int
  shutdown_duration :: real
  wait_per_loop :: real
  work_directory :: "path option"
  pool :: "pool option"
  state :: "('v, 's) state option"

text \<open>
  What the loop of \<open>run\<close> works on: the local dict \<open>futures\<close> (future to trial
  identifier, in insertion order) and the two objects it mutates. \<open>peak\<close> is not a variable
  of the program: it records the largest size \<open>futures\<close> has had, and is updated where
  \<open>futures\<close> grows (line 140).
\<close>

record ('v, 's) frame =
  futures :: "(fid \<times> tid) list"
  fr_pool :: pool
  fr_state :: "('v, 's) state"
  peak :: nat

text \<open>
  One evaluation of the loop guard and the iteration it starts, as the environment decides
  it: the clock \<open>time.monotonic()\<close> read by the guard, the ambient data the Stopper reads
  in the guard, the futures that \<open>concurrent.futures.wait\<close> finds completed (in the order
  in which iterating the returned set yields them), and the ambient data the Stopper reads
  after the wait.
\<close>

record 'w tick =
  now :: real
  amb_guard :: 'w
  completed :: "fid list"
  amb_wait :: 'w

text \<open>
  How an observed execution of \<open>run\<close> ends: it returned, an exception left it, or the
  loop was still going when the observed ticks ended.
\<close>

datatype status = Finished | Propagated py_error | StillRunning

section \<open>\<open>EvaluationPool\<close>, \<open>ResultDB\<close> and \<open>State\<close>\<close>

text \<open>
  Modelled from the spec: \<open>EvaluationPool.schedule\<close>, \<open>finish\<close> and \<open>shutdown\<close>
  (\<open>cmlkit/tune/run/pool.py\<close> is not among the sources). \<open>schedule\<close> launches the
  evaluation and returns a new handle at once; \<open>finish\<close> turns a normal return into a
  success, a timeout into a timeout failure, an exception on the allow-list into a failure
  of that kind, and lets any other exception propagate.
\<close>

definition schedule :: "pool \<Rightarrow> config \<Rightarrow> fid \<times> pool" where
  "schedule pl suggestion = (length (launched pl), pl\<lparr>launched := launched pl @ [suggestion]\<rparr>)"

definition finish :: "('v, 's, 'w) collab \<Rightarrow> pool \<Rightarrow> fid \<Rightarrow> py_error + 'v trial_result" where
  "finish C pl fut =
     (case process_outcome C fut of
        Returned v \<Rightarrow> Inr (Success v)
      | TimedOut \<Rightarrow> Inr (Failure ''Timeout'' [])
      | Threw kind msg \<Rightarrow>
          if kind \<in> set (pool_caught_exceptions pl) then Inr (Failure kind msg)
          else Inl (Uncaught kind msg))"

definition shutdown :: "pool \<Rightarrow> pool" where
  "shutdown pl = pl\<lparr>shut_down := True\<rparr>"

text \<open>
  Modelled from the spec: \<open>ResultDB.add\<close> (\<open>cmlkit/tune/run/resultdb.py\<close> is not among
  the sources): append-only, and a second add for a trial identifier already present is
  rejected as a logic error.
\<close>

definition resultdb_add ::
  "(tid \<times> 'v trial_result) list \<Rightarrow> tid \<Rightarrow> 'v trial_result \<Rightarrow> py_error + (tid \<times> 'v trial_result) list" where
  "resultdb_add db t r = (if t \<in> fst ` set db then Inl (DuplicateTrial t) else Inr (db @ [(t, r)]))"

text \<open>
  Modelled from the spec: \<open>State.suggest\<close> and \<open>State.submit\<close>
  (\<open>cmlkit/tune/run/state.py\<close> is not among the sources). \<open>suggest\<close> asks the search for
  a candidate and its identifier and appends a suggested event; a search that raises is
  fatal. \<open>submit\<close> records the result in the database, appends a completed or failed
  event and feeds the result back to the search.
\<close>

definition suggest ::
  "('v, 's, 'w) collab \<Rightarrow> ('v, 's) state \<Rightarrow> py_error + ((tid \<times> config) \<times> ('v, 's) state)" where
  "suggest C st =
     (case search_suggest C (search st) of
        Inl msg \<Rightarrow> Inl (SearchError msg)
      | Inr (t, cfg, s') \<Rightarrow> Inr ((t, cfg), st\<lparr>search := s', tape := tape st @ [Suggested t cfg]\<rparr>))"

definition submit ::
  "('v, 's, 'w) collab \<Rightarrow> ('v, 's) state \<Rightarrow> tid \<Rightarrow> 'v trial_result \<Rightarrow> py_error + ('v, 's) state" where
  "submit C st t r =
     (case resultdb_add (evals st) t r of
        Inl e \<Rightarrow> Inl e
      | Inr db \<Rightarrow>
          Inr (st\<lparr>search := search_observe C (search st) t r,
                  evals := db,
                  tape := tape st @ [case r of Success v \<Rightarrow> Completed t r
                                     | Failure kind msg \<Rightarrow> Failed t r]\<rparr>))"

text \<open>The trial identifiers of the suggested events of a tape, in order.\<close>

fun suggested_tids :: "'v event list \<Rightarrow> tid list" where
  "suggested_tids [] = []"
| "suggested_tids (Suggested t cfg # es) = t # suggested_tids es"
| "suggested_tids (e # es) = suggested_tids es"

section \<open>Files\<close>

definition makedir :: "path \<Rightarrow> 'v disk \<Rightarrow> 'v disk" where
  "makedir p d = d\<lparr>dirs := insert p (dirs d)\<rparr>"

definition save_yaml :: "path \<Rightarrow> 'v content \<Rightarrow> 'v disk \<Rightarrow> 'v disk" where
  "save_yaml p c d = d\<lparr>files := (files d)(p \<mapsto> c)\<rparr>"

text \<open>The decimal text of a number, as an f-string formats an index.\<close>

fun string_of_nat :: "nat \<Rightarrow> string" where
  "string_of_nat n =
     (if n < 10 then [''0123456789'' ! n]
      else string_of_nat (n div 10) @ [''0123456789'' ! (n mod 10)])"

section \<open>\<open>Run.__init__\<close>, \<open>_get_config\<close> and \<open>prepare\<close>\<close>

text \<open>
  The constructor, given the search object built by \<open>from_config\<close>, the evaluator
  configuration, the names of the caught exceptions, the \<open>name\<close> argument (\<open>None\<close> is
  Python's \<open>None\<close>), the hash computed for \<open>self.id\<close> and the three context entries.
  \<open>self.name\<close> is assigned only on the branch \<open>name is None\<close> (lines 69 and 70); the
  constructor has no other assignment to it.
\<close>

definition Run_init ::
  "('v, 's, 'w) collab \<Rightarrow> 's \<Rightarrow> config \<Rightarrow> real option \<Rightarrow> string list \<Rightarrow> string option \<Rightarrow>
   string \<Rightarrow> int \<Rightarrow> real \<Rightarrow> real \<Rightarrow> ('v, 's) run" where
  "Run_init C search_obj evaluator timeout caught name_arg rid mw sd wpl =
     \<lparr>run_search = search_obj, evaluator_config = evaluator, trial_timeout = timeout,
      caught_exceptions = caught, run_id = rid,
      name = (case name_arg of None \<Rightarrow> Some (humanize C rid) | Some n \<Rightarrow> None),
      ready = False, max_workers = mw, shutdown_duration = sd, wait_per_loop = wpl,
      work_directory = None, pool = None, state = None\<rparr>"

text \<open>The dict of \<open>_get_config\<close>; \<open>nm\<close> is the value read from \<open>self.name\<close>.\<close>

definition get_config :: "('v, 's, 'w) collab \<Rightarrow> ('v, 's) run \<Rightarrow> string \<Rightarrow> config" where
  "get_config C r nm =
     CDict [(''search'', search_get_config C (run_search r)),
            (''evaluator'', evaluator_config r),
            (''stop'', stop_get_config C),
            (''trial_timeout'', (case trial_timeout r of None \<Rightarrow> CNone | Some t \<Rightarrow> CNum t)),
            (''caught_exceptions'', CList (map CStr (caught_exceptions r))),
            (''name'', CStr nm)]"

text \<open>
  \<open>prepare(directory)\<close>. Its first statement reads \<open>self.name\<close>, which raises
  \<open>AttributeError\<close> when the attribute was never assigned. The log handler and the log
  line are not modelled.
\<close>

definition prepare ::
  "('v, 's, 'w) collab \<Rightarrow> path \<Rightarrow> ('v, 's) run \<Rightarrow> 'v disk \<Rightarrow> py_error + (('v, 's) run \<times> 'v disk)" where
  "prepare C directory r d =
     (case name r of
        None \<Rightarrow> Inl (AttributeError ''name'')
      | Some nm \<Rightarrow>
          (let wd = directory @ [''run_'' @ nm];
               d1 = makedir wd d;
               d2 = save_yaml (wd @ [''run.yml'']) (ConfigFile (get_config C r nm)) d1;
               pl = \<lparr>pool_max_workers = max_workers r,
                     pool_evaluator_config = evaluator_config r,
                     pool_trial_timeout = trial_timeout r,
                     pool_caught_exceptions = caught_exceptions r,
                     launched = [], shut_down = False\<rparr>;
               st = \<lparr>search = run_search r, evals = [], tape = []\<rparr>
           in Inr (r\<lparr>work_directory := Some wd, pool := Some pl, state := Some st,
                     ready := True\<rparr>, d2)))"

section \<open>\<open>Run.run\<close> and \<open>Run.write_results\<close>\<close>

text \<open>
  \<open>end = start + duration - shutdown_duration\<close> (line 115). The duration is \<open>None\<close> for
  the default \<open>float("inf")\<close>, and then so is the deadline, which no clock reaches.
\<close>

definition deadline :: "real \<Rightarrow> real option \<Rightarrow> real \<Rightarrow> real option" where
  "deadline start duration sd = (case duration of None \<Rightarrow> None | Some dur \<Rightarrow> Some (start + dur - sd))"

definition before_deadline :: "real \<Rightarrow> real option \<Rightarrow> bool" where
  "before_deadline t e = (case e of None \<Rightarrow> True | Some e' \<Rightarrow> t < e')"

text \<open>
  \<open>concurrent.futures.wait(futures, return_when=FIRST_COMPLETED)\<close>: the pair of the
  futures of the dict that are done and of those that are not.
\<close>

definition wait_first_completed :: "(fid \<times> tid) list \<Rightarrow> fid list \<Rightarrow> fid list \<times> fid list" where
  "wait_first_completed futs compl =
     (remdups (filter (\<lambda>f. f \<in> fst ` set futs) compl),
      filter (\<lambda>f. f \<notin> set compl) (map fst futs))"

text \<open>The body of the loop over \<open>done\<close> (lines 130 to 133), for one future.\<close>

definition harvest_one ::
  "('v, 's, 'w) collab \<Rightarrow> fid \<Rightarrow> ('v, 's) frame \<Rightarrow> py_error option \<times> ('v, 's) frame" where
  "harvest_one C f fr =
     (case map_of (futures fr) f of
        None \<Rightarrow> (Some KeyError, fr)
      | Some t \<Rightarrow>
          (case finish C (fr_pool fr) f of
             Inl e \<Rightarrow> (Some e, fr)
           | Inr result \<Rightarrow>
               (case submit C (fr_state fr) t result of
                  Inl e \<Rightarrow> (Some e, fr)
                | Inr st \<Rightarrow>
                    (None, fr\<lparr>fr_state := st, futures := AList.delete f (futures fr)\<rparr>))))"

fun harvest ::
  "('v, 's, 'w) collab \<Rightarrow> fid list \<Rightarrow> ('v, 's) frame \<Rightarrow> py_error option \<times> ('v, 's) frame" where
  "harvest C [] fr = (None, fr)"
| "harvest C (f # fs) fr =
     (case harvest_one C f fr of
        (Some e, fr1) \<Rightarrow> (Some e, fr1)
      | (None, fr1) \<Rightarrow> harvest C fs fr1)"

text \<open>The loop \<open>for i in range(n_new_trials)\<close> (lines 136 to 140).\<close>

fun schedule_new ::
  "('v, 's, 'w) collab \<Rightarrow> nat \<Rightarrow> ('v, 's) frame \<Rightarrow> py_error option \<times> ('v, 's) frame" where
  "schedule_new C 0 fr = (None, fr)"
| "schedule_new C (Suc n) fr =
     (case suggest C (fr_state fr) of
        Inl e \<Rightarrow> (Some e, fr)
      | Inr ((t, suggestion), st) \<Rightarrow>
          (let (f, pl) = schedule (fr_pool fr) suggestion;
               futs = AList.update f t (futures fr)
           in schedule_new C n
                (fr\<lparr>fr_state := st, fr_pool := pl, futures := futs,
                    peak := max (peak fr) (length futs)\<rparr>)))"

definition n_new_trials :: "int \<Rightarrow> fid list \<Rightarrow> nat" where
  "n_new_trials mw running = nat (max 0 (mw + 1 - int (length running)))"

text \<open>
  The body of the \<open>while\<close> loop (lines 120 to 140) without the status file and the log
  line, which change neither \<open>futures\<close> nor the pool nor the state.
\<close>

definition loop_body ::
  "('v, 's, 'w) collab \<Rightarrow> int \<Rightarrow> 'w tick \<Rightarrow> ('v, 's) frame \<Rightarrow> py_error option \<times> ('v, 's) frame" where
  "loop_body C mw tk fr =
     (let (done_fs, running) = wait_first_completed (futures fr) (completed tk)
      in if \<not> stop_done C (amb_wait tk) (fr_state fr) then
           (case harvest C done_fs fr of
              (Some e, fr1) \<Rightarrow> (Some e, fr1)
            | (None, fr1) \<Rightarrow> schedule_new C (n_new_trials mw running) fr1)
         else (None, fr))"

text \<open>
  The \<open>while\<close> loop (line 119), one tick for each evaluation of its guard. With no tick
  left the loop has not ended within what was observed.
\<close>

fun run_loop ::
  "('v, 's, 'w) collab \<Rightarrow> int \<Rightarrow> real option \<Rightarrow> 'w tick list \<Rightarrow> ('v, 's) frame \<Rightarrow>
   status \<times> ('v, 's) frame" where
  "run_loop C mw e [] fr = (StillRunning, fr)"
| "run_loop C mw e (tk # tks) fr =
     (if before_deadline (now tk) e \<and> \<not> stop_done C (amb_guard tk) (fr_state fr) then
        (case loop_body C mw tk fr of
           (Some err, fr1) \<Rightarrow> (Propagated err, fr1)
         | (None, fr1) \<Rightarrow> run_loop C mw e tks fr1)
      else (Finished, fr))"

text \<open>\<open>for i, config in enumerate(configs): save_yaml(work_directory / f"{prefix}{i}", config)\<close>\<close>

definition save_numbered :: "path \<Rightarrow> string \<Rightarrow> config list \<Rightarrow> 'v disk \<Rightarrow> 'v disk" where
  "save_numbered wd prefix configs d =
     fold (\<lambda>(i, c). save_yaml (wd @ [prefix @ string_of_nat i]) (ConfigFile c))
       (List.enumerate 0 configs) d"

definition write_results ::
  "('v, 's, 'w) collab \<Rightarrow> path \<Rightarrow> ('v, 's) state \<Rightarrow> 'v disk \<Rightarrow> 'v disk" where
  "write_results C wd st d =
     (let d1 = save_yaml (wd @ [''tape'']) (TapeFile (tape st)) d;
          d2 = save_numbered wd ''suggestion-'' (top_suggestions C (evals st)) d1;
          refined = top_refined_suggestions C (evals st)
      in if \<exists>r \<in> set refined. r \<noteq> CDict []
         then save_numbered wd ''refined_suggestion-'' (top_suggestions C (evals st)) d2
         else d2)"

text \<open>
  \<open>run(duration)\<close>, from the clock read at line 114 and the ticks of the loop. The
  result is how the execution ended, the frame of the loop where it ended (\<open>None\<close> when the
  loop was never reached), the object and the disk. The status file is not modelled.
\<close>

definition run ::
  "('v, 's, 'w) collab \<Rightarrow> real \<Rightarrow> 'w tick list \<Rightarrow> real option \<Rightarrow> ('v, 's) run \<Rightarrow> 'v disk \<Rightarrow>
   status \<times> ('v, 's) frame option \<times> ('v, 's) run \<times> 'v disk" where
  "run C start ticks duration r d =
     (if \<not> ready r then (Propagated NotReady, None, r, d)
      else
        (case (work_directory r, pool r, state r) of
           (Some wd, Some pl, Some st) \<Rightarrow>
             (let e = deadline start duration (shutdown_duration r);
                  (res, fr) = run_loop C (max_workers r) e ticks
                                \<lparr>futures = [], fr_pool = pl, fr_state = st, peak = 0\<rparr>
              in (case res of
                    Finished \<Rightarrow>
                      (Finished, Some fr,
                       r\<lparr>pool := Some (shutdown (fr_pool fr)), state := Some (fr_state fr)\<rparr>,
                       write_results C wd (fr_state fr) d)
                  | other \<Rightarrow>
                      (other, Some fr,
                       r\<lparr>pool := Some (fr_pool fr), state := Some (fr_state fr)\<rparr>, d)))
         | other \<Rightarrow> (Propagated (AttributeError ''state''), None, r, d)))"

section \<open>Observations of an execution of \<open>run\<close>\<close>

text \<open>
  What is read off the result of \<open>run\<close>: the trial identifiers recorded in the result
  database, those of the futures still held in \<open>futures\<close>, those suggested (each
  suggestion of the loop is scheduled at once, lines 137 and 138), the number of
  evaluations the pool has launched, and the largest size \<open>futures\<close> has had.
\<close>

definition recorded :: "status \<times> ('v, 's) frame option \<times> ('v, 's) run \<times> 'v disk \<Rightarrow> tid list" where
  "recorded res = (case state (fst (snd (snd res))) of None \<Rightarrow> [] | Some st \<Rightarrow> map fst (evals st))"

definition outstanding :: "status \<times> ('v, 's) frame option \<times> ('v, 's) run \<times> 'v disk \<Rightarrow> tid list" where
  "outstanding res = (case fst (snd res) of None \<Rightarrow> [] | Some fr \<Rightarrow> map snd (futures fr))"

definition scheduled :: "status \<times> ('v, 's) frame option \<times> ('v, 's) run \<times> 'v disk \<Rightarrow> tid list" where
  "scheduled res =
     (case state (fst (snd (snd res))) of None \<Rightarrow> [] | Some st \<Rightarrow> suggested_tids (tape st))"

definition launches :: "status \<times> ('v, 's) frame option \<times> ('v, 's) run \<times> 'v disk \<Rightarrow> nat" where
  "launches res = (case pool (fst (snd (snd res))) of None \<Rightarrow> 0 | Some pl \<Rightarrow> length (launched pl))"

definition high_water :: "status \<times> ('v, 's) frame option \<times> ('v, 's) run \<times> 'v disk \<Rightarrow> nat" where
  "high_water res = (case fst (snd res) of None \<Rightarrow> 0 | Some fr \<Rightarrow> peak fr)"

section \<open>Collaborators for concrete executions\<close>

text \<open>
  Concrete collaborators, on which the executions below are evaluated. An evaluation
  returns its loss, the configuration it evaluated and a refined configuration (\<open>{}\<close> when
  it refined nothing). The futures 0, 1, 3 and 4 return the losses 0.9, 0.2, 0.5 and 0.1,
  future 2 times out, future 5 raises an error that is not on the allow-list.
\<close>

type_synonym demo_value = "real \<times> config \<times> config"

definition demo_config :: "nat \<Rightarrow> config" where
  "demo_config n = CDict [(''x'', CNum (real n))]"

definition demo_outcome :: "fid \<Rightarrow> demo_value proc_outcome" where
  "demo_outcome f =
     (if f = 0 then Returned (9 / 10, demo_config 0, CDict [])
      else if f = 1 then Returned (2 / 10, demo_config 1, CDict [(''x'', CNum (3 / 2))])
      else if f = 2 then TimedOut
      else if f = 3 then Returned (5 / 10, demo_config 3, CDict [])
      else if f = 4 then Returned (1 / 10, demo_config 4, CDict [])
      else Threw ''ValueError'' ''bad configuration'')"

text \<open>A search that enumerates: its state is the next trial identifier.\<close>

definition demo_suggest :: "nat \<Rightarrow> string + (tid \<times> config \<times> nat)" where
  "demo_suggest n = Inr (n, demo_config n, Suc n)"

definition demo_observe :: "nat \<Rightarrow> tid \<Rightarrow> demo_value trial_result \<Rightarrow> nat" where
  "demo_observe n t r = n"

text \<open>
  Modelled from the spec: a Stopper composed of a budget-based one (stop once
  \<open>budget\<close> successes are recorded) and a wall-clock one (stop once the ambient clock
  reaches \<open>limit\<close>), which stops when either does (\<open>cmlkit/tune/run/stopping.py\<close> is not
  among the sources).
\<close>

fun successes :: "(tid \<times> 'v trial_result) list \<Rightarrow> (tid \<times> 'v) list" where
  "successes [] = []"
| "successes ((t, Success v) # db) = (t, v) # successes db"
| "successes ((t, Failure kind msg) # db) = successes db"

definition demo_stop :: "nat \<Rightarrow> real \<Rightarrow> real \<Rightarrow> (demo_value, nat) state \<Rightarrow> bool" where
  "demo_stop budget limit clock st \<longleftrightarrow> budget \<le> length (successes (evals st)) \<or> limit \<le> clock"

text \<open>
  Modelled from the spec: \<open>ResultDB.top_suggestions\<close> and \<open>top_refined_suggestions\<close>
  with \<open>k = 5\<close> (\<open>cmlkit/tune/run/resultdb.py\<close> is not among the sources): the
  configurations, respectively the refined configurations, of the five successes of lowest
  loss, ties in submission order.
\<close>

definition demo_top :: "(tid \<times> demo_value trial_result) list \<Rightarrow> config list" where
  "demo_top db = map (\<lambda>(t, (loss, c, rc)). c) (take 5 (sort_key (\<lambda>(t, (loss, c, rc)). loss) (successes db)))"

definition demo_top_refined :: "(tid \<times> demo_value trial_result) list \<Rightarrow> config list" where
  "demo_top_refined db =
     map (\<lambda>(t, (loss, c, rc)). rc) (take 5 (sort_key (\<lambda>(t, (loss, c, rc)). loss) (successes db)))"

definition demo_collab :: "nat \<Rightarrow> real \<Rightarrow> (demo_value, nat, real) collab" where
  "demo_collab budget limit =
     \<lparr>stop_done = demo_stop budget limit,
      stop_get_config = CDict [(''stop_max'', CNum (real budget))],
      search_suggest = demo_suggest,
      search_observe = demo_observe,
      search_get_config = demo_config,
      process_outcome = demo_outcome,
      top_suggestions = demo_top,
      top_refined_suggestions = demo_top_refined,
      humanize = take 8\<rparr>"

definition demo_disk :: "demo_value disk" where
  "demo_disk = \<lparr>dirs = {}, files = Map.empty\<rparr>"

text \<open>
  A run built without a name, with two workers, a shutdown duration of 30 seconds and a
  poll interval of 5 seconds, and the same run after \<open>prepare\<close> in directory \<open>work\<close>.
\<close>

definition demo_run :: "nat \<Rightarrow> real \<Rightarrow> (demo_value, nat) run" where
  "demo_run budget limit =
     Run_init (demo_collab budget limit) 0 (CDict [(''kind'', CStr ''eval'')]) (Some 1)
       [''TimeoutError''] None ''a1b2c3d4e5'' 2 30 5"

definition demo_prepared :: "nat \<Rightarrow> real \<Rightarrow> (demo_value, nat) run" where
  "demo_prepared budget limit =
     \<lparr>run_search = 0, evaluator_config = CDict [(''kind'', CStr ''eval'')],
      trial_timeout = Some 1, caught_exceptions = [''TimeoutError''],
      run_id = ''a1b2c3d4e5'', name = Some ''a1b2c3d4'', ready = True,
      max_workers = 2, shutdown_duration = 30, wait_per_loop = 5,
      work_directory = Some [''work'', ''run_a1b2c3d4''],
      pool = Some \<lparr>pool_max_workers = 2,
                    pool_evaluator_config = CDict [(''kind'', CStr ''eval'')],
                    pool_trial_timeout = Some 1,
                    pool_caught_exceptions = [''TimeoutError''],
                    launched = [], shut_down = False\<rparr>,
      state = Some \<lparr>search = 0, evals = [], tape = []\<rparr>\<rparr>"

definition demo_tick :: "real \<Rightarrow> fid list \<Rightarrow> real \<Rightarrow> real tick" where
  "demo_tick t compl t' = \<lparr>now = t, amb_guard = t, completed = compl, amb_wait = t'\<rparr>"

text \<open>The disk after \<open>prepare\<close> of that run on the empty disk.\<close>

definition demo_prepared_disk :: "nat \<Rightarrow> demo_value disk" where
  "demo_prepared_disk budget =
     \<lparr>dirs = {[''work'', ''run_a1b2c3d4'']},
      files = [[''work'', ''run_a1b2c3d4'', ''run.yml''] \<mapsto>
                 ConfigFile (CDict [(''search'', demo_config 0),
                                    (''evaluator'', CDict [(''kind'', CStr ''eval'')]),
                                    (''stop'', CDict [(''stop_max'', CNum (real budget))]),
                                    (''trial_timeout'', CNum 1),
                                    (''caught_exceptions'', CList [CStr ''TimeoutError'']),
                                    (''name'', CStr ''a1b2c3d4'')])]\<rparr>"

text \<open>
  The frame of that run after its first iteration: three trials scheduled on two workers,
  none harvested.
\<close>

definition demo_frame :: "(demo_value, nat) frame" where
  "demo_frame =
     \<lparr>futures = [(0, 0), (1, 1), (2, 2)],
      fr_pool = \<lparr>pool_max_workers = 2,
                 pool_evaluator_config = CDict [(''kind'', CStr ''eval'')],
                 pool_trial_timeout = Some 1,
                 pool_caught_exceptions = [''TimeoutError''],
                 launched = [demo_config 0, demo_config 1, demo_config 2],
                 shut_down = False\<rparr>,
      fr_state = \<lparr>search = 3, evals = [],
                  tape = [Suggested 0 (demo_config 0), Suggested 1 (demo_config 1),
                          Suggested 2 (demo_config 2)]\<rparr>,
      peak = 3\<rparr>"

section \<open>Invariants\<close>

text \<open>
  What every \<open>memcached\<close> object reached by calls satisfies: the keys of the dict are
  distinct, every counter is below \<open>lruc\<close>, and the size is futures_within \<open>max_entries\<close>.
\<close>

definition mc_inv :: "('k, 'v) memcached \<Rightarrow> bool" where
  "mc_inv mc \<longleftrightarrow>
     distinct (map fst (cache mc)) \<and>
     (\<forall>(k, c, v) \<in> set (cache mc). c < lruc mc) \<and>
     int (length (cache mc)) \<le> max_entries mc"


text \<open>
  What the loop of \<open>run\<close> keeps: the keys of \<open>futures\<close> are distinct handles the pool has
  issued, the database holds each trial identifier once, every suggested identifier is
  either in the database or held in \<open>futures\<close>, and every suggestion was launched.
\<close>

definition frame_inv :: "('v, 's) frame \<Rightarrow> bool" where
  "frame_inv fr \<longleftrightarrow>
     distinct (map fst (futures fr)) \<and>
     (\<forall>f \<in> fst ` set (futures fr). f < length (launched (fr_pool fr))) \<and>
     distinct (map fst (evals (fr_state fr))) \<and>
     mset (map fst (evals (fr_state fr))) + mset (map snd (futures fr))
       = mset (suggested_tids (tape (fr_state fr))) \<and>
     length (suggested_tids (tape (fr_state fr))) = length (launched (fr_pool fr))"

text \<open>\<open>futures\<close> holds, and has held, at most \<open>b\<close> entries.\<close>

definition futures_within :: "nat \<Rightarrow> ('v, 's) frame \<Rightarrow> bool" where
  "futures_within b fr \<longleftrightarrow> length (futures fr) \<le> b \<and> peak fr \<le> b"

section \<open>Properties of \<open>memcached\<close>\<close>


lemma evict_scan_cases:
  "evict_scan items (c, k) = (c, k) \<or>
   (\<exists>v. (snd (evict_scan items (c, k)), (fst (evict_scan items (c, k)), v)) \<in> set items)"
proof (induction items arbitrary: c k)
  case Nil
  then show ?case by simp
next
  case (Cons x items)
  obtain k1 c1 v1 where x: "x = (k1, (c1, v1))" by (cases x) auto
  show ?case
  proof (cases "c1 < c")
    case True
    then show ?thesis using Cons [of c1 k1] x by auto
  next
    case False
    then show ?thesis using Cons [of c k] x by auto
  qed
qed

lemma evict_scan_le_init: "fst (evict_scan items (c, k)) \<le> c"
proof (induction items arbitrary: c k)
  case Nil
  then show ?case by simp
next
  case (Cons x items)
  obtain k1 c1 v1 where x: "x = (k1, (c1, v1))" by (cases x) auto
  show ?case using Cons [of c1 k1] Cons [of c k] x by auto
qed

lemma evict_scan_min:
  "(k', (c', v')) \<in> set items \<Longrightarrow> fst (evict_scan items (c, k)) \<le> c'"
proof (induction items arbitrary: c k)
  case Nil
  then show ?case by simp
next
  case (Cons x items)
  obtain k1 c1 v1 where x: "x = (k1, (c1, v1))" by (cases x) auto
  show ?case
  proof (cases "c1 < c")
    case True
    then show ?thesis using Cons x evict_scan_le_init [of items c1 k1] by auto
  next
    case False
    then show ?thesis using Cons x evict_scan_le_init [of items c k] by auto
  qed
qed

lemma length_delete_distinct:
  "distinct (map fst al) \<Longrightarrow> k \<in> fst ` set al \<Longrightarrow> Suc (length (AList.delete k al)) = length al"
proof (induction al)
  case Nil
  then show ?case by simp
next
  case (Cons x al)
  show ?case
  proof (cases "fst x = k")
    case True
    then have "k \<notin> fst ` set al" using Cons.prems by auto
    then have "AList.delete k al = al" by (simp add: delete_id)
    then show ?thesis using True by (simp add: delete_simps)
  next
    case False
    then show ?thesis using Cons by (auto simp: delete_simps)
  qed
qed

lemma length_alist_update:
  "length (AList.update k v al) = (if k \<in> fst ` set al then length al else Suc (length al))"
  by (induction al) auto

lemma set_update_cases:
  "(k', e) \<in> set (AList.update k v al) \<Longrightarrow> (k' = k \<and> e = v) \<or> (k', e) \<in> set al"
  by (induction al) (auto split: if_splits)

lemma set_delete_subset: "set (AList.delete k al) \<subseteq> set al"
  by (auto simp: AList.delete_eq)

lemma mc_inv_call:
  assumes "mc_inv mc"
  shows "mc_inv (snd (memcached_call f h mc a))"
proof (cases "map_of (cache mc) (h a)")
  case None
  let ?c1 = "AList.update (h a) (lruc mc, f a) (cache mc)"
  let ?k = "snd (evict_scan ?c1 (lruc mc + 1, h a))"
  have notin: "h a \<notin> fst ` set (cache mc)" using None by (simp add: map_of_eq_None_iff)
  have d1: "distinct (map fst ?c1)" using assms by (simp add: mc_inv_def distinct_update)
  have len1: "length ?c1 = Suc (length (cache mc))" using notin by (simp add: length_alist_update)
  have cnt1: "\<forall>(k, c, v) \<in> set ?c1. c < lruc mc + 1"
    using assms set_update_cases [of _ _ "h a" "(lruc mc, f a)" "cache mc"]
    by (fastforce simp: mc_inv_def)
  have kin: "?k \<in> fst ` set ?c1"
  proof -
    have "h a \<in> fst ` set ?c1" by (simp add: dom_update)
    moreover have "(k, e) \<in> set ?c1 \<Longrightarrow> k \<in> fst ` set ?c1" for k e by force
    ultimately show ?thesis
      using evict_scan_cases [of ?c1 "lruc mc + 1" "h a"] by (metis snd_conv)
  qed
  show ?thesis
  proof (cases "int (length ?c1) > max_entries mc")
    case True
    have "Suc (length (AList.delete ?k ?c1)) = length ?c1"
      using d1 kin by (rule length_delete_distinct)
    moreover have "\<forall>(k, c, v) \<in> set (AList.delete ?k ?c1). c < lruc mc + 1"
      using cnt1 set_delete_subset [of ?k ?c1] by blast
    ultimately show ?thesis
      using None True d1 len1 assms
      by (simp add: memcached_call_def Let_def mc_inv_def distinct_delete)
  next
    case False
    then show ?thesis
      using None d1 cnt1 by (simp add: memcached_call_def Let_def mc_inv_def)
  qed
next
  case (Some item)
  let ?c1 = "AList.update (h a) (lruc mc, snd item) (cache mc)"
  have isin: "h a \<in> fst ` set (cache mc)" using Some map_of_eq_None_iff [of "cache mc" "h a"] by auto
  have d1: "distinct (map fst ?c1)" using assms by (simp add: mc_inv_def distinct_update)
  have len1: "length ?c1 = length (cache mc)" using isin by (simp add: length_alist_update)
  have cnt1: "\<forall>(k, c, v) \<in> set ?c1. c < lruc mc + 1"
    using assms set_update_cases [of _ _ "h a" "(lruc mc, snd item)" "cache mc"]
    by (fastforce simp: mc_inv_def)
  show ?thesis
    using Some d1 len1 cnt1 assms by (simp add: memcached_call_def Let_def mc_inv_def)
qed

lemma mc_inv_init: "0 \<le> m \<Longrightarrow> mc_inv (memcached_init m)"
  by (simp add: mc_inv_def memcached_init_def)

lemma max_entries_call: "max_entries (snd (memcached_call f h mc a)) = max_entries mc"
  by (simp add: memcached_call_def Let_def split: option.splits)

lemma calls_inv:
  "mc_inv mc \<Longrightarrow> memcached_calls f h mc as = (vs, mc') \<Longrightarrow>
   mc_inv mc' \<and> max_entries mc' = max_entries mc"
proof (induction as arbitrary: mc vs)
  case Nil
  then show ?case by simp
next
  case (Cons a as)
  obtain v mc1 where c1: "memcached_call f h mc a = (v, mc1)" by (cases "memcached_call f h mc a")
  obtain vs2 mc2 where c2: "memcached_calls f h mc1 as = (vs2, mc2)" by (cases "memcached_calls f h mc1 as")
  have "mc_inv mc1" using mc_inv_call [OF Cons.prems(1), of f h a] c1 by simp
  moreover have "max_entries mc1 = max_entries mc" using max_entries_call [of f h mc a] c1 by simp
  moreover have "mc2 = mc'" using Cons.prems(2) c1 c2 by simp
  ultimately show ?case using Cons.IH [of mc1 vs2] c2 by simp
qed


lemma set_update_distinct:
  "distinct (map fst al) \<Longrightarrow> (k', e) \<in> set (AList.update k v al) \<Longrightarrow>
   (k' = k \<and> e = v) \<or> (k' \<noteq> k \<and> (k', e) \<in> set al)"
  by (induction al) (auto split: if_splits simp: image_iff)

lemma update_self_mem: "(k, v) \<in> set (AList.update k v al)"
  by (induction al) auto

lemma evict_scan_finds_least:
  assumes "(k0, (c0, v0)) \<in> set items" and "c0 < c"
  shows "\<exists>w. (snd (evict_scan items (c, k)), (fst (evict_scan items (c, k)), w)) \<in> set items"
proof -
  have "fst (evict_scan items (c, k)) \<le> c0" using assms(1) by (rule evict_scan_min)
  then have "evict_scan items (c, k) \<noteq> (c, k)" using assms(2) by auto
  then show ?thesis using evict_scan_cases [of items c k] by blast
qed

text \<open>
  C8. Take a cache built with a maximum of \<open>m \<ge> 0\<close> entries, any sequence of calls
  \<open>as\<close> on it and one more call with arguments \<open>a\<close>. The cache holds at most \<open>m\<close>
  entries before and after that call. When the call is a miss and the dict with the new
  entry is larger than \<open>m\<close>, the entry deleted is one whose counter is the smallest of
  all entries. After the call, hit or miss, the entry of the call's key (if it is still
  there) carries the counter \<open>lruc\<close> had at the call, and every other entry a smaller one.
\<close>

theorem memcached_bounded_lru_eviction:
  assumes "0 \<le> m"
    and "memcached_calls f fast_hash (memcached_init m) as = (vs, mc)"
    and "memcached_call f fast_hash mc a = (v, mc')"
  shows "int (length (cache mc)) \<le> m \<and> int (length (cache mc')) \<le> m \<and>
     (map_of (cache mc) (fast_hash a) = None \<and>
      m < int (length (AList.update (fast_hash a) (lruc mc, f a) (cache mc)))
        \<longrightarrow> (\<exists>k c w. (k, (c, w)) \<in> set (AList.update (fast_hash a) (lruc mc, f a) (cache mc)) \<and>
               (\<forall>(k', (c', w')) \<in> set (AList.update (fast_hash a) (lruc mc, f a) (cache mc)). c \<le> c') \<and>
               cache mc' = AList.delete k (AList.update (fast_hash a) (lruc mc, f a) (cache mc)))) \<and>
     (\<forall>(k, (c, w)) \<in> set (cache mc'). if k = fast_hash a then c = lruc mc else c < lruc mc)"
proof -
  have inv: "mc_inv mc" and me: "max_entries mc = m"
    using calls_inv [OF mc_inv_init [OF assms(1)] assms(2)] by (simp_all add: memcached_init_def)
  have inv': "mc_inv mc'" and me': "max_entries mc' = m"
    using mc_inv_call [OF inv, of f fast_hash a] max_entries_call [of f fast_hash mc a] assms(3) me
    by simp_all
  have b1: "int (length (cache mc)) \<le> m" using inv me by (simp add: mc_inv_def)
  have b2: "int (length (cache mc')) \<le> m" using inv' me' by (simp add: mc_inv_def)
  let ?key = "fast_hash a"
  let ?c1 = "AList.update ?key (lruc mc, f a) (cache mc)"
  let ?r = "evict_scan ?c1 (lruc mc + 1, ?key)"
  have ev: "\<exists>k c w. (k, (c, w)) \<in> set ?c1 \<and> (\<forall>(k', (c', w')) \<in> set ?c1. c \<le> c') \<and>
               cache mc' = AList.delete k ?c1"
    if miss: "map_of (cache mc) ?key = None" and over: "m < int (length ?c1)"
  proof -
    have "(?key, (lruc mc, f a)) \<in> set ?c1" by (rule update_self_mem)
    then obtain w where w: "(snd ?r, (fst ?r, w)) \<in> set ?c1"
      using evict_scan_finds_least [of ?key "lruc mc" "f a" ?c1 "lruc mc + 1" ?key] by auto
    have least: "\<forall>(k', (c', w')) \<in> set ?c1. fst ?r \<le> c'"
      using evict_scan_min [of _ _ _ ?c1 "lruc mc + 1" ?key] by auto
    have "cache mc' = AList.delete (snd ?r) ?c1"
      using assms(3) miss over me by (auto simp: memcached_call_def Let_def)
    then show ?thesis using w least by blast
  qed
  have fresh: "\<forall>(k, (c, w)) \<in> set (cache mc'). if k = ?key then c = lruc mc else c < lruc mc"
  proof (cases "map_of (cache mc) ?key")
    case None
    have "cache mc' = ?c1 \<or> cache mc' = AList.delete (snd ?r) ?c1"
      using assms(3) None by (auto simp: memcached_call_def Let_def split: if_splits)
    then have sub: "set (cache mc') \<subseteq> set ?c1"
      using set_delete_subset [of "snd ?r" ?c1] by auto
    have "\<forall>(k, (c, w)) \<in> set ?c1. if k = ?key then c = lruc mc else c < lruc mc"
      using inv set_update_distinct [of "cache mc" _ _ ?key "(lruc mc, f a)"]
      by (fastforce simp: mc_inv_def)
    then show ?thesis using sub by blast
  next
    case (Some item)
    let ?c2 = "AList.update ?key (lruc mc, snd item) (cache mc)"
    have eq: "cache mc' = ?c2"
      using assms(3) Some by (auto simp: memcached_call_def Let_def)
    have "\<forall>(k, (c, w)) \<in> set ?c2. if k = ?key then c = lruc mc else c < lruc mc"
      using inv set_update_distinct [of "cache mc" _ _ ?key "(lruc mc, snd item)"]
      by (fastforce simp: mc_inv_def)
    then show ?thesis using eq by simp
  qed
  show ?thesis using b1 b2 ev fresh by blast
qed


text \<open>
  C8, at a concrete input: with two entries allowed, the calls 1, 2, 1 leave both keys
  cached, key 1 refreshed by the hit; the call 3 then evicts key 2, the least recently
  used, although key 1 was inserted first.
\<close>

theorem memcached_bounded_lru_eviction_witness:
  "(0::int) \<le> 2 \<and>
   memcached_calls Suc id (memcached_init 2) [1, 2, 1] =
     ([2, 3, 2], \<lparr>max_entries = 2, cache = [(1, (2, 2)), (2, (1, 3))], lruc = 3, hits = 1,
                  misses = 2, total_hits = 1, total_misses = 2\<rparr>) \<and>
   memcached_call Suc id
     \<lparr>max_entries = 2, cache = [(1, (2, 2)), (2, (1, 3))], lruc = 3, hits = 1,
      misses = 2, total_hits = 1, total_misses = 2\<rparr> 3 =
     (4, \<lparr>max_entries = 2, cache = [(1, (2, 2)), (3, (3, 4))], lruc = 4, hits = 1,
          misses = 3, total_hits = 1, total_misses = 3\<rparr>) \<and>
   map_of [(1, (2, 2)), (2, (1, 3::nat))] (id (3::nat)) = (None :: (int \<times> nat) option) \<and>
   (2::int) < int (length (AList.update (id (3::nat)) (3::int, Suc 3) [(1, (2, 2)), (2, (1, 3))])) \<and>
   AList.delete (2::nat) (AList.update (id 3) (3::int, Suc 3) [(1, (2, 2)), (2, (1, 3))])
     = [(1, (2, 2)), (3, (3, 4))]"
  using memcached_bounded_lru_eviction [of 2 Suc id "[1, 2, 1]" "[2, 3, 2]"
      "\<lparr>max_entries = 2, cache = [(1, (2, 2)), (2, (1, 3))], lruc = 3, hits = 1,
        misses = 2, total_hits = 1, total_misses = 2\<rparr>" 3 4
      "\<lparr>max_entries = 2, cache = [(1, (2, 2)), (3, (3, 4))], lruc = 4, hits = 1,
        misses = 3, total_hits = 1, total_misses = 3\<rparr>"]
  by (simp add: memcached_call_def memcached_init_def Let_def)





section \<open>Properties of the loop of \<open>run\<close>\<close>


lemma suggested_tids_append: "suggested_tids (xs @ ys) = suggested_tids xs @ suggested_tids ys"
  by (induction xs rule: suggested_tids.induct) simp_all

lemma update_fresh_append: "k \<notin> fst ` set al \<Longrightarrow> AList.update k v al = al @ [(k, v)]"
  by (induction al) auto

lemma mset_snd_delete:
  "distinct (map fst al) \<Longrightarrow> map_of al k = Some v \<Longrightarrow>
   mset (map snd al) = add_mset v (mset (map snd (AList.delete k al)))"
proof (induction al)
  case Nil
  then show ?case by simp
next
  case (Cons p al)
  show ?case
  proof (cases "fst p = k")
    case True
    then have "k \<notin> fst ` set al" using Cons.prems(1) by auto
    then have "AList.delete k al = al" by simp
    moreover have "snd p = v" using True Cons.prems(2) by (cases p) simp
    ultimately show ?thesis using True by (simp add: delete_simps)
  next
    case False
    then have "map_of al k = Some v" using Cons.prems(2) by (cases p) (simp split: if_splits)
    then show ?thesis using False Cons by (simp add: delete_simps)
  qed
qed

lemma submit_effect:
  assumes "submit C st t r = Inr st'"
  shows "t \<notin> fst ` set (evals st) \<and> evals st' = evals st @ [(t, r)] \<and>
         suggested_tids (tape st') = suggested_tids (tape st)"
  using assms
  by (cases r) (auto simp: submit_def resultdb_add_def suggested_tids_append split: if_splits)

lemma harvest_one_inv:
  assumes "frame_inv fr"
  shows "frame_inv (snd (harvest_one C f fr))"
proof (cases "harvest_one C f fr")
  case (Pair eo fr1)
  show ?thesis
  proof (cases eo)
    case (Some e)
    then have "fr1 = fr" using Pair
      by (auto simp: harvest_one_def split: option.splits sum.splits)
    then show ?thesis using assms Pair by simp
  next
    case None
    then obtain t result st where
      t: "map_of (futures fr) f = Some t" and
      st: "submit C (fr_state fr) t result = Inr st" and
      fr1: "fr1 = fr\<lparr>fr_state := st, futures := AList.delete f (futures fr)\<rparr>"
      using Pair by (auto simp: harvest_one_def split: option.splits sum.splits)
    note eff = submit_effect [OF st]
    have d: "distinct (map fst (futures fr))" using assms by (simp add: frame_inv_def)
    have m: "mset (map snd (futures fr)) = add_mset t (mset (map snd (AList.delete f (futures fr))))"
      using d t by (rule mset_snd_delete)
    have sub: "set (AList.delete f (futures fr)) \<subseteq> set (futures fr)"
      by (auto simp: AList.delete_eq)
    have keys: "\<forall>g \<in> fst ` set (AList.delete f (futures fr)). g < length (launched (fr_pool fr))"
      using assms sub unfolding frame_inv_def by blast
    have "frame_inv fr1"
      unfolding frame_inv_def fr1
      using assms eff m keys d
      by (simp add: frame_inv_def distinct_delete)
    then show ?thesis using Pair by simp
  qed
qed

lemma harvest_inv: "frame_inv fr \<Longrightarrow> frame_inv (snd (harvest C fs fr))"
proof (induction fs arbitrary: fr)
  case Nil
  then show ?case by simp
next
  case (Cons f fs)
  have i1: "frame_inv (snd (harvest_one C f fr))" using Cons.prems by (rule harvest_one_inv)
  show ?case
  proof (cases "harvest_one C f fr")
    case (Pair eo fr1)
    then show ?thesis using i1 Cons.IH [of fr1] by (cases eo) simp_all
  qed
qed

lemma schedule_step_inv:
  assumes "frame_inv fr" and "suggest C (fr_state fr) = Inr ((t, sg), st)"
  shows "frame_inv (fr\<lparr>fr_state := st, fr_pool := snd (schedule (fr_pool fr) sg),
            futures := AList.update (fst (schedule (fr_pool fr) sg)) t (futures fr),
            peak := pk\<rparr>)"
proof -
  have st: "evals st = evals (fr_state fr)"
    "suggested_tids (tape st) = suggested_tids (tape (fr_state fr)) @ [t]"
    using assms(2)
    by (auto simp: suggest_def suggested_tids_append split: sum.splits)
  let ?f = "length (launched (fr_pool fr))"
  have fresh: "?f \<notin> fst ` set (futures fr)" using assms(1) by (auto simp: frame_inv_def)
  have upd: "AList.update ?f t (futures fr) = futures fr @ [(?f, t)]"
    using fresh by (rule update_fresh_append)
  show ?thesis
    using assms(1) st fresh upd
    by (auto simp: frame_inv_def schedule_def less_Suc_eq)
qed

lemma schedule_new_inv: "frame_inv fr \<Longrightarrow> frame_inv (snd (schedule_new C n fr))"
proof (induction n arbitrary: fr)
  case 0
  then show ?case by simp
next
  case (Suc n)
  show ?case
  proof (cases "suggest C (fr_state fr)")
    case (Inl e)
    then show ?thesis using Suc.prems by simp
  next
    case (Inr x)
    then obtain t sg st where x: "suggest C (fr_state fr) = Inr ((t, sg), st)"
      by (cases x) auto
    show ?thesis
      using x Suc.IH [OF schedule_step_inv [OF Suc.prems x]]
      by (simp add: split_beta Let_def)
  qed
qed

lemma loop_body_inv: "frame_inv fr \<Longrightarrow> frame_inv (snd (loop_body C mw tk fr))"
proof -
  assume a: "frame_inv fr"
  obtain dn rn where w: "wait_first_completed (futures fr) (completed tk) = (dn, rn)"
    by (cases "wait_first_completed (futures fr) (completed tk)")
  show ?thesis
  proof (cases "harvest C dn fr")
    case (Pair eo fr1)
    have "frame_inv fr1" using harvest_inv [OF a, of C dn] Pair by simp
    then show ?thesis
      using a w Pair schedule_new_inv [of fr1 C "n_new_trials mw rn"]
      by (cases eo) (simp_all add: loop_body_def)
  qed
qed

lemma run_loop_inv: "frame_inv fr \<Longrightarrow> frame_inv (snd (run_loop C mw e tks fr))"
proof (induction tks arbitrary: fr)
  case Nil
  then show ?case by simp
next
  case (Cons tk tks)
  show ?case
  proof (cases "loop_body C mw tk fr")
    case (Pair eo fr1)
    have "frame_inv fr1" using loop_body_inv [OF Cons.prems, of C mw tk] Pair by simp
    then show ?thesis using Cons.prems Pair Cons.IH [of fr1] by (cases eo) simp_all
  qed
qed


lemma prepare_result:
  assumes "prepare C directory r0 d0 = Inr (r, d)"
  shows "ready r \<and> max_workers r = max_workers r0 \<and>
         (\<exists>nm. name r0 = Some nm \<and> work_directory r = Some (directory @ [''run_'' @ nm])) \<and>
         (\<exists>pl. pool r = Some pl \<and> launched pl = []) \<and>
         state r = Some \<lparr>search = run_search r0, evals = [], tape = []\<rparr>"
  using assms by (auto simp: prepare_def Let_def split: option.splits)

lemma run_ready_unfold:
  assumes "ready r" "work_directory r = Some wd" "pool r = Some pl" "state r = Some st"
    and "run_loop C (max_workers r) (deadline start duration (shutdown_duration r)) ticks
           \<lparr>futures = [], fr_pool = pl, fr_state = st, peak = 0\<rparr> = (res, fr)"
  shows "run C start ticks duration r d =
           (res, Some fr,
            r\<lparr>pool := Some (if res = Finished then shutdown (fr_pool fr) else fr_pool fr),
               state := Some (fr_state fr)\<rparr>,
            if res = Finished then write_results C wd (fr_state fr) d else d)"
  using assms by (cases res) (simp_all add: run_def Let_def)

text \<open>
  C1, amended. For a run started on a freshly prepared object, wherever the execution
  stands (returned, left by an exception, or still looping): the trial identifiers in the
  result database are pairwise distinct; every suggested identifier is either recorded in
  the database or held in \<open>futures\<close>, each occurrence once; every suggestion was launched
  on the pool; so the database holds as many entries as trials were scheduled less the
  futures still held. Nothing is said of the trials still held when \<open>run\<close> returns: the
  code never harvests them.
\<close>

theorem run_accounts_for_every_scheduled_trial:
  assumes "prepare C directory r0 d0 = Inr (r, d)"
  shows "distinct (recorded (run C start ticks duration r d)) \<and>
         mset (recorded (run C start ticks duration r d))
           + mset (outstanding (run C start ticks duration r d))
           = mset (scheduled (run C start ticks duration r d)) \<and>
         length (scheduled (run C start ticks duration r d))
           = launches (run C start ticks duration r d) \<and>
         length (recorded (run C start ticks duration r d))
           = launches (run C start ticks duration r d)
             - length (outstanding (run C start ticks duration r d))"
proof -
  from prepare_result [OF assms] obtain wd pl where
    p: "ready r" "work_directory r = Some wd" "pool r = Some pl" "launched pl = []"
       "state r = Some \<lparr>search = run_search r0, evals = [], tape = []\<rparr>"
    by auto
  let ?st = "\<lparr>search = run_search r0, evals = [], tape = []\<rparr> :: ('a, 'b) state"
  let ?fr0 = "\<lparr>futures = [], fr_pool = pl, fr_state = ?st, peak = 0\<rparr>"
  obtain res fr where
    l: "run_loop C (max_workers r) (deadline start duration (shutdown_duration r)) ticks ?fr0 = (res, fr)"
    by (cases "run_loop C (max_workers r) (deadline start duration (shutdown_duration r)) ticks ?fr0")
  have "frame_inv ?fr0" using p(4) by (simp add: frame_inv_def)
  then have inv: "frame_inv fr"
    using run_loop_inv [of ?fr0 C "max_workers r" "deadline start duration (shutdown_duration r)" ticks] l
    by simp
  note r = run_ready_unfold [OF p(1) p(2) p(3) p(5) l, of d]
  have obs: "recorded (run C start ticks duration r d) = map fst (evals (fr_state fr))"
    "outstanding (run C start ticks duration r d) = map snd (futures fr)"
    "scheduled (run C start ticks duration r d) = suggested_tids (tape (fr_state fr))"
    "launches (run C start ticks duration r d) = length (launched (fr_pool fr))"
    using r by (simp_all add: recorded_def outstanding_def scheduled_def launches_def shutdown_def)
  have m: "mset (map fst (evals (fr_state fr))) + mset (map snd (futures fr))
             = mset (suggested_tids (tape (fr_state fr)))"
    and len: "length (suggested_tids (tape (fr_state fr))) = length (launched (fr_pool fr))"
    and dist: "distinct (map fst (evals (fr_state fr)))"
    using inv by (simp_all add: frame_inv_def)
  have "size (mset (map fst (evals (fr_state fr))) + mset (map snd (futures fr)))
          = size (mset (suggested_tids (tape (fr_state fr))))"
    using m by simp
  then have "length (evals (fr_state fr)) + length (futures fr) = length (launched (fr_pool fr))"
    using len by simp
  then show ?thesis using obs m len dist by simp
qed


lemma harvest_one_frame:
  "harvest_one C f fr = (eo, fr1) \<Longrightarrow>
   fr_pool fr1 = fr_pool fr \<and> peak fr1 = peak fr \<and> length (futures fr1) \<le> length (futures fr) \<and>
   suggested_tids (tape (fr_state fr1)) = suggested_tids (tape (fr_state fr))"
  by (auto simp: harvest_one_def AList.delete_eq dest: submit_effect split: option.splits sum.splits)

lemma delete_as_filter: "AList.delete k al = filter (\<lambda>p. fst p \<noteq> k) al"
  by (induction al) auto

lemma harvest_one_ok:
  "harvest_one C f fr = (None, fr1) \<Longrightarrow> futures fr1 = filter (\<lambda>p. fst p \<noteq> f) (futures fr)"
  by (auto simp: harvest_one_def delete_as_filter split: option.splits sum.splits)

lemma harvest_frame:
  "harvest C fs fr = (eo, fr1) \<Longrightarrow>
   fr_pool fr1 = fr_pool fr \<and> peak fr1 = peak fr \<and> length (futures fr1) \<le> length (futures fr) \<and>
   suggested_tids (tape (fr_state fr1)) = suggested_tids (tape (fr_state fr))"
proof (induction fs arbitrary: fr)
  case Nil
  then show ?case by simp
next
  case (Cons f fs)
  obtain eo1 fr2 where h: "harvest_one C f fr = (eo1, fr2)" by (cases "harvest_one C f fr")
  note one = harvest_one_frame [OF h]
  show ?case
  proof (cases eo1)
    case None
    then have "harvest C fs fr2 = (eo, fr1)" using Cons.prems h by simp
    then show ?thesis using Cons.IH [of fr2] one by auto
  next
    case (Some e)
    then have "fr1 = fr2" using Cons.prems h by simp
    then show ?thesis using one by simp
  qed
qed

lemma harvest_ok:
  "harvest C fs fr = (None, fr1) \<Longrightarrow> futures fr1 = filter (\<lambda>p. fst p \<notin> set fs) (futures fr)"
proof (induction fs arbitrary: fr)
  case Nil
  then show ?case by simp
next
  case (Cons f fs)
  obtain eo1 fr2 where h: "harvest_one C f fr = (eo1, fr2)" by (cases "harvest_one C f fr")
  show ?case
  proof (cases eo1)
    case None
    then have "harvest C fs fr2 = (None, fr1)" using Cons.prems h by simp
    then have "futures fr1 = filter (\<lambda>p. fst p \<notin> set fs) (futures fr2)" by (rule Cons.IH)
    moreover have "futures fr2 = filter (\<lambda>p. fst p \<noteq> f) (futures fr)"
      using h None by (simp add: harvest_one_ok)
    ultimately show ?thesis by (auto intro: filter_cong)
  next
    case (Some e)
    then show ?thesis using Cons.prems h by simp
  qed
qed

lemma wait_running_length:
  assumes "wait_first_completed futs compl = (dn, rn)"
  shows "length (filter (\<lambda>p. fst p \<notin> set dn) futs) = length rn"
proof -
  have "dn = remdups (filter (\<lambda>f. f \<in> fst ` set futs) compl)"
    and rn: "rn = filter (\<lambda>f. f \<notin> set compl) (map fst futs)"
    using assms by (simp_all add: wait_first_completed_def)
  then have dn: "set dn = {f \<in> set compl. f \<in> fst ` set futs}" by simp
  have "(fst p \<notin> set dn) = (fst p \<notin> set compl)" if "p \<in> set futs" for p
  proof -
    have "fst p \<in> fst ` set futs" using that by (rule imageI)
    then show ?thesis by (simp add: dn)
  qed
  then have "filter (\<lambda>p. fst p \<notin> set dn) futs = filter (\<lambda>p. fst p \<notin> set compl) futs"
    by (intro filter_cong) simp_all
  then show ?thesis by (simp add: rn filter_map comp_def)
qed

lemma schedule_new_bound:
  "schedule_new C n fr = (eo, fr1) \<Longrightarrow>
   length (futures fr1) \<le> length (futures fr) + n \<and>
   peak fr1 \<le> max (peak fr) (length (futures fr) + n)"
proof (induction n arbitrary: fr)
  case 0
  then show ?case by simp
next
  case (Suc n)
  show ?case
  proof (cases "suggest C (fr_state fr)")
    case (Inl e)
    then show ?thesis using Suc.prems by simp
  next
    case (Inr x)
    then obtain t sg st where x: "suggest C (fr_state fr) = Inr ((t, sg), st)" by (cases x) auto
    let ?futs = "AList.update (fst (schedule (fr_pool fr) sg)) t (futures fr)"
    let ?fr2 = "fr\<lparr>fr_state := st, fr_pool := snd (schedule (fr_pool fr) sg), futures := ?futs,
                   peak := max (peak fr) (length ?futs)\<rparr>"
    have "schedule_new C n ?fr2 = (eo, fr1)"
      using Suc.prems x by (simp add: split_beta Let_def)
    from Suc.IH [OF this] have
      "length (futures fr1) \<le> length ?futs + n"
      "peak fr1 \<le> max (max (peak fr) (length ?futs)) (length ?futs + n)"
      by simp_all
    moreover have "length ?futs \<le> Suc (length (futures fr))" by (simp add: length_alist_update)
    ultimately show ?thesis by auto
  qed
qed

lemma schedule_new_count:
  "schedule_new C n fr = (None, fr1) \<Longrightarrow>
   length (launched (fr_pool fr1)) = length (launched (fr_pool fr)) + n \<and>
   length (suggested_tids (tape (fr_state fr1))) = length (suggested_tids (tape (fr_state fr))) + n"
proof (induction n arbitrary: fr)
  case 0
  then show ?case by simp
next
  case (Suc n)
  show ?case
  proof (cases "suggest C (fr_state fr)")
    case (Inl e)
    then show ?thesis using Suc.prems by simp
  next
    case (Inr x)
    then obtain t sg st where x: "suggest C (fr_state fr) = Inr ((t, sg), st)" by (cases x) auto
    have st: "suggested_tids (tape st) = suggested_tids (tape (fr_state fr)) @ [t]"
      using x by (auto simp: suggest_def suggested_tids_append split: sum.splits)
    let ?futs = "AList.update (fst (schedule (fr_pool fr) sg)) t (futures fr)"
    let ?fr2 = "fr\<lparr>fr_state := st, fr_pool := snd (schedule (fr_pool fr) sg), futures := ?futs,
                   peak := max (peak fr) (length ?futs)\<rparr>"
    have "schedule_new C n ?fr2 = (None, fr1)"
      using Suc.prems x by (simp add: split_beta Let_def)
    from Suc.IH [OF this] show ?thesis using st by (simp add: schedule_def)
  qed
qed

lemma loop_body_within:
  assumes "futures_within (nat (mw + 1)) fr"
  shows "futures_within (nat (mw + 1)) (snd (loop_body C mw tk fr))"
proof -
  obtain dn rn where w: "wait_first_completed (futures fr) (completed tk) = (dn, rn)"
    by (cases "wait_first_completed (futures fr) (completed tk)")
  obtain eo fr1 where h: "harvest C dn fr = (eo, fr1)" by (cases "harvest C dn fr")
  note hf = harvest_frame [OF h]
  show ?thesis
  proof (cases "stop_done C (amb_wait tk) (fr_state fr)")
    case True
    then show ?thesis using assms w by (simp add: loop_body_def)
  next
    case False
    show ?thesis
    proof (cases eo)
      case (Some e)
      then show ?thesis using False w h hf assms by (simp add: loop_body_def futures_within_def)
    next
      case None
      obtain eo2 fr2 where s: "schedule_new C (n_new_trials mw rn) fr1 = (eo2, fr2)"
        by (cases "schedule_new C (n_new_trials mw rn) fr1")
      have len1: "length (futures fr1) = length rn"
        using harvest_ok [of C dn fr fr1] h None wait_running_length [OF w] by simp
      have "length rn \<le> nat (mw + 1)" using len1 hf assms by (simp add: futures_within_def)
      then have "length rn + n_new_trials mw rn \<le> nat (mw + 1)"
        by (simp add: n_new_trials_def)
      then have "futures_within (nat (mw + 1)) fr2"
        using schedule_new_bound [OF s] len1 hf assms by (auto simp: futures_within_def)
      then show ?thesis using False w h None s by (simp add: loop_body_def)
    qed
  qed
qed

lemma run_loop_within:
  "futures_within (nat (mw + 1)) fr \<Longrightarrow> futures_within (nat (mw + 1)) (snd (run_loop C mw e tks fr))"
proof (induction tks arbitrary: fr)
  case Nil
  then show ?case by simp
next
  case (Cons tk tks)
  show ?case
  proof (cases "loop_body C mw tk fr")
    case (Pair eo fr1)
    have "futures_within (nat (mw + 1)) fr1" using loop_body_within [OF Cons.prems, of C tk] Pair by simp
    then show ?thesis using Cons.prems Pair Cons.IH [of fr1] by (cases eo) simp_all
  qed
qed

lemma run_not_started:
  assumes "\<not> (ready r \<and> work_directory r \<noteq> None \<and> pool r \<noteq> None \<and> state r \<noteq> None)"
  shows "\<exists>e. run C start ticks duration r d = (Propagated e, None, r, d)"
  using assms by (auto simp: run_def split: option.splits)

text \<open>
  C2, amended. For every object, clock, schedule of completions and stopper, the dict
  \<open>futures\<close> never holds more than \<open>max_workers + 1\<close> entries during \<open>run\<close> (none when
  \<open>max_workers\<close> is negative): neither at the point the execution is observed nor at any
  earlier point where the dict grew.
\<close>

theorem run_holds_at_most_max_workers_plus_one:
  "high_water (run C start ticks duration r d) \<le> nat (max_workers r + 1) \<and>
   length (outstanding (run C start ticks duration r d)) \<le> nat (max_workers r + 1)"
proof (cases "ready r \<and> work_directory r \<noteq> None \<and> pool r \<noteq> None \<and> state r \<noteq> None")
  case False
  then obtain e where "run C start ticks duration r d = (Propagated e, None, r, d)"
    using run_not_started by blast
  then show ?thesis by (simp add: high_water_def outstanding_def)
next
  case True
  then obtain wd pl st where
    p: "ready r" "work_directory r = Some wd" "pool r = Some pl" "state r = Some st" by auto
  let ?fr0 = "\<lparr>futures = [], fr_pool = pl, fr_state = st, peak = 0\<rparr>"
  obtain res fr where
    l: "run_loop C (max_workers r) (deadline start duration (shutdown_duration r)) ticks ?fr0 = (res, fr)"
    by (cases "run_loop C (max_workers r) (deadline start duration (shutdown_duration r)) ticks ?fr0")
  have "futures_within (nat (max_workers r + 1)) ?fr0" by (simp add: futures_within_def)
  then have "futures_within (nat (max_workers r + 1)) fr"
    using run_loop_within [of "max_workers r" ?fr0 C "deadline start duration (shutdown_duration r)" ticks] l
    by simp
  then show ?thesis
    using run_ready_unfold [OF p l, of d] by (simp add: high_water_def outstanding_def futures_within_def)
qed

lemma schedule_new_at_most:
  "schedule_new C n fr = (eo, fr1) \<Longrightarrow>
   length (launched (fr_pool fr1)) \<le> length (launched (fr_pool fr)) + n"
proof (induction n arbitrary: fr)
  case 0
  then show ?case by simp
next
  case (Suc n)
  show ?case
  proof (cases "suggest C (fr_state fr)")
    case (Inl e)
    then show ?thesis using Suc.prems by auto
  next
    case (Inr x)
    then obtain t sg st where x: "suggest C (fr_state fr) = Inr ((t, sg), st)" by (cases x) auto
    let ?futs = "AList.update (fst (schedule (fr_pool fr) sg)) t (futures fr)"
    let ?fr2 = "fr\<lparr>fr_state := st, fr_pool := snd (schedule (fr_pool fr) sg), futures := ?futs,
                   peak := max (peak fr) (length ?futs)\<rparr>"
    have "schedule_new C n ?fr2 = (eo, fr1)"
      using Suc.prems x by (simp add: split_beta Let_def)
    from Suc.IH [OF this] show ?thesis by (simp add: schedule_def)
  qed
qed

text \<open>
  C3. In an iteration whose stop check after the wait did not fire, the number of
  evaluations launched (and of suggestions made) is at most
  \<open>max(0, max_workers + 1 - len(running))\<close>, and exactly that number when the iteration
  runs to its end without an exception; \<open>running\<close> is the second component of what the
  wait returned.
\<close>

theorem loop_body_schedules_n_new_trials:
  assumes "\<not> stop_done C (amb_wait tk) (fr_state fr)"
    and "loop_body C mw tk fr = (eo, fr')"
  shows "(eo = None \<longrightarrow>
           length (launched (fr_pool fr'))
             = length (launched (fr_pool fr))
               + nat (max 0 (mw + 1 - int (length (snd (wait_first_completed (futures fr) (completed tk)))))) \<and>
           length (suggested_tids (tape (fr_state fr')))
             = length (suggested_tids (tape (fr_state fr)))
               + nat (max 0 (mw + 1 - int (length (snd (wait_first_completed (futures fr) (completed tk))))))) \<and>
         length (launched (fr_pool fr'))
           \<le> length (launched (fr_pool fr))
               + nat (max 0 (mw + 1 - int (length (snd (wait_first_completed (futures fr) (completed tk))))))"
proof -
  obtain dn rn where w: "wait_first_completed (futures fr) (completed tk) = (dn, rn)"
    by (cases "wait_first_completed (futures fr) (completed tk)")
  obtain eo1 fr1 where h: "harvest C dn fr = (eo1, fr1)" by (cases "harvest C dn fr")
  note hf = harvest_frame [OF h]
  show ?thesis
  proof (cases eo1)
    case (Some e1)
    then have "fr' = fr1" "eo = Some e1" using assms w h by (simp_all add: loop_body_def)
    then show ?thesis using hf by simp
  next
    case None
    then have s: "schedule_new C (n_new_trials mw rn) fr1 = (eo, fr')"
      using assms w h by (simp add: loop_body_def)
    have le: "length (launched (fr_pool fr')) \<le> length (launched (fr_pool fr)) + n_new_trials mw rn"
      using schedule_new_at_most [OF s] hf by simp
    have "eo = None \<Longrightarrow>
          length (launched (fr_pool fr')) = length (launched (fr_pool fr)) + n_new_trials mw rn \<and>
          length (suggested_tids (tape (fr_state fr')))
             = length (suggested_tids (tape (fr_state fr))) + n_new_trials mw rn"
      using schedule_new_count [of C "n_new_trials mw rn" fr1 fr'] s hf by simp
    then show ?thesis using le w by (simp add: n_new_trials_def)
  qed
qed

section \<open>Concrete executions, and the remaining properties of \<open>Run\<close>\<close>

text \<open>
  \<open>prepare\<close> on the run built without a name gives the prepared run and its disk.
\<close>

lemma demo_prepare:
  "prepare (demo_collab b l) [''work''] (demo_run b l) demo_disk
     = Inr (demo_prepared b l, demo_prepared_disk b)"
  by (simp add: prepare_def demo_run_def Run_init_def demo_collab_def demo_prepared_def
      demo_prepared_disk_def demo_disk_def makedir_def save_yaml_def get_config_def Let_def)

text \<open>The frame \<open>demo_frame\<close> is the one the first iteration of that run leaves.\<close>

lemma demo_first_iteration:
  "run_loop (demo_collab 2 1000) 2 None [demo_tick 0 [] 0]
     \<lparr>futures = [], fr_pool = \<lparr>pool_max_workers = 2,
                 pool_evaluator_config = CDict [(''kind'', CStr ''eval'')],
                 pool_trial_timeout = Some 1,
                 pool_caught_exceptions = [''TimeoutError''],
                 launched = [], shut_down = False\<rparr>,
       fr_state = \<lparr>search = 0, evals = [], tape = []\<rparr>, peak = 0\<rparr> = (StillRunning, demo_frame)"
  by code_simp

text \<open>
  C1 as stated fails. Two workers, a stopper that fires at two successes: the first
  iteration schedules trials 0, 1 and 2; the second harvests 0 and 1 and schedules 3 and 4;
  the third guard finds the stopper done and \<open>run\<close> returns. Five trials were scheduled,
  the database ends with two entries, and the futures of trials 2, 3 and 4 are dropped
  with the local dict, whatever they resolve to.
\<close>

theorem run_stop_leaves_trials_unrecorded_counterexample:
  "fst (run (demo_collab 2 1000) 0 [demo_tick 0 [] 0, demo_tick 5 [0, 1] 5, demo_tick 10 [3] 10] None
          (demo_prepared 2 1000) (demo_prepared_disk 2)) = Finished \<and>
   launches (run (demo_collab 2 1000) 0 [demo_tick 0 [] 0, demo_tick 5 [0, 1] 5, demo_tick 10 [3] 10] None
          (demo_prepared 2 1000) (demo_prepared_disk 2)) = 5 \<and>
   scheduled (run (demo_collab 2 1000) 0 [demo_tick 0 [] 0, demo_tick 5 [0, 1] 5, demo_tick 10 [3] 10] None
          (demo_prepared 2 1000) (demo_prepared_disk 2)) = [0, 1, 2, 3, 4] \<and>
   recorded (run (demo_collab 2 1000) 0 [demo_tick 0 [] 0, demo_tick 5 [0, 1] 5, demo_tick 10 [3] 10] None
          (demo_prepared 2 1000) (demo_prepared_disk 2)) = [0, 1] \<and>
   outstanding (run (demo_collab 2 1000) 0 [demo_tick 0 [] 0, demo_tick 5 [0, 1] 5, demo_tick 10 [3] 10] None
          (demo_prepared 2 1000) (demo_prepared_disk 2)) = [2, 3, 4]"
  by code_simp

text \<open>
  C2 as stated fails. With \<open>max_workers = 2\<close> the first iteration finds no future
  running and schedules \<open>2 + 1 - 0 = 3\<close> trials: \<open>futures\<close> holds three evaluations.
\<close>

theorem run_overcommits_one_worker_counterexample:
  "max_workers (demo_prepared 2 1000) = 2 \<and>
   fst (run (demo_collab 2 1000) 0 [demo_tick 0 [] 0] None
          (demo_prepared 2 1000) (demo_prepared_disk 2)) = StillRunning \<and>
   outstanding (run (demo_collab 2 1000) 0 [demo_tick 0 [] 0] None
          (demo_prepared 2 1000) (demo_prepared_disk 2)) = [0, 1, 2] \<and>
   high_water (run (demo_collab 2 1000) 0 [demo_tick 0 [] 0] None
          (demo_prepared 2 1000) (demo_prepared_disk 2)) = 3"
  by code_simp


text \<open>
  C1 amended, at a concrete input: a run that an uncaught error of future 5 ends in its
  fourth iteration. Seven trials were scheduled; 0, 1 and 3 are recorded as successes and 2
  as a timeout failure; 4, 5 and 6 are still held.
\<close>

theorem run_accounts_for_every_scheduled_trial_witness:
  "prepare (demo_collab 4 1000) [''work''] (demo_run 4 1000) demo_disk
     = Inr (demo_prepared 4 1000, demo_prepared_disk 4) \<and>
   fst (run (demo_collab 4 1000) 0
          [demo_tick 0 [] 0, demo_tick 5 [0, 1] 5, demo_tick 10 [2, 3] 10, demo_tick 15 [5] 15]
          None (demo_prepared 4 1000) (demo_prepared_disk 4))
     = Propagated (Uncaught ''ValueError'' ''bad configuration'') \<and>
   recorded (run (demo_collab 4 1000) 0
          [demo_tick 0 [] 0, demo_tick 5 [0, 1] 5, demo_tick 10 [2, 3] 10, demo_tick 15 [5] 15]
          None (demo_prepared 4 1000) (demo_prepared_disk 4)) = [0, 1, 2, 3] \<and>
   outstanding (run (demo_collab 4 1000) 0
          [demo_tick 0 [] 0, demo_tick 5 [0, 1] 5, demo_tick 10 [2, 3] 10, demo_tick 15 [5] 15]
          None (demo_prepared 4 1000) (demo_prepared_disk 4)) = [4, 5, 6] \<and>
   scheduled (run (demo_collab 4 1000) 0
          [demo_tick 0 [] 0, demo_tick 5 [0, 1] 5, demo_tick 10 [2, 3] 10, demo_tick 15 [5] 15]
          None (demo_prepared 4 1000) (demo_prepared_disk 4)) = [0, 1, 2, 3, 4, 5, 6] \<and>
   launches (run (demo_collab 4 1000) 0
          [demo_tick 0 [] 0, demo_tick 5 [0, 1] 5, demo_tick 10 [2, 3] 10, demo_tick 15 [5] 15]
          None (demo_prepared 4 1000) (demo_prepared_disk 4)) = 7 \<and>
   length (recorded (run (demo_collab 4 1000) 0
          [demo_tick 0 [] 0, demo_tick 5 [0, 1] 5, demo_tick 10 [2, 3] 10, demo_tick 15 [5] 15]
          None (demo_prepared 4 1000) (demo_prepared_disk 4)))
     = launches (run (demo_collab 4 1000) 0
          [demo_tick 0 [] 0, demo_tick 5 [0, 1] 5, demo_tick 10 [2, 3] 10, demo_tick 15 [5] 15]
          None (demo_prepared 4 1000) (demo_prepared_disk 4))
       - length (outstanding (run (demo_collab 4 1000) 0
          [demo_tick 0 [] 0, demo_tick 5 [0, 1] 5, demo_tick 10 [2, 3] 10, demo_tick 15 [5] 15]
          None (demo_prepared 4 1000) (demo_prepared_disk 4)))"
proof -
  let ?res = "run (demo_collab 4 1000) 0
          [demo_tick 0 [] 0, demo_tick 5 [0, 1] 5, demo_tick 10 [2, 3] 10, demo_tick 15 [5] 15]
          None (demo_prepared 4 1000) (demo_prepared_disk 4)"
  have h: "prepare (demo_collab 4 1000) [''work''] (demo_run 4 1000) demo_disk
             = Inr (demo_prepared 4 1000, demo_prepared_disk 4)"
    by (rule demo_prepare)
  have acc: "length (recorded ?res) = launches ?res - length (outstanding ?res)"
    using run_accounts_for_every_scheduled_trial [OF h] by blast
  have v: "fst ?res = Propagated (Uncaught ''ValueError'' ''bad configuration'')"
    "recorded ?res = [0, 1, 2, 3]" "outstanding ?res = [4, 5, 6]"
    "scheduled ?res = [0, 1, 2, 3, 4, 5, 6]" "launches ?res = 7"
    by code_simp+
  show ?thesis using h acc v by (intro conjI)
qed

text \<open>
  C3, at a concrete input: three futures held, two of them reported done, two workers:
  one future is still running and \<open>2 + 1 - 1 = 2\<close> trials are scheduled.
\<close>

theorem loop_body_schedules_n_new_trials_witness:
  "\<not> stop_done (demo_collab 4 1000) (amb_wait (demo_tick 5 [0, 1] 5)) (fr_state demo_frame) \<and>
   fst (loop_body (demo_collab 4 1000) 2 (demo_tick 5 [0, 1] 5) demo_frame) = None \<and>
   snd (wait_first_completed (futures demo_frame) (completed (demo_tick 5 [0, 1] 5))) = [2] \<and>
   length (launched (fr_pool demo_frame)) = 3 \<and>
   length (launched (fr_pool (snd (loop_body (demo_collab 4 1000) 2 (demo_tick 5 [0, 1] 5) demo_frame))))
     = length (launched (fr_pool demo_frame))
       + nat (max 0 (2 + 1 - int (length (snd (wait_first_completed (futures demo_frame)
                                                 (completed (demo_tick 5 [0, 1] 5))))))) \<and>
   length (launched (fr_pool (snd (loop_body (demo_collab 4 1000) 2 (demo_tick 5 [0, 1] 5) demo_frame)))) = 5"
proof -
  let ?C = "demo_collab 4 1000" and ?tk = "demo_tick 5 [0, 1] 5"
  have h1: "\<not> stop_done ?C (amb_wait ?tk) (fr_state demo_frame)" by code_simp
  have n: "fst (loop_body ?C 2 ?tk demo_frame) = None" by code_simp
  then have h2: "loop_body ?C 2 ?tk demo_frame = (None, snd (loop_body ?C 2 ?tk demo_frame))"
    by (metis prod.collapse)
  have v: "snd (wait_first_completed (futures demo_frame) (completed ?tk)) = [2]"
    "length (launched (fr_pool demo_frame)) = 3"
    "length (launched (fr_pool (snd (loop_body ?C 2 ?tk demo_frame)))) = 5"
    by code_simp+
  have c: "length (launched (fr_pool (snd (loop_body ?C 2 ?tk demo_frame))))
     = length (launched (fr_pool demo_frame))
       + nat (max 0 (2 + 1 - int (length (snd (wait_first_completed (futures demo_frame)
                                                 (completed ?tk))))))"
    using loop_body_schedules_n_new_trials [OF h1 h2] by blast
  show ?thesis using h1 n v c by (intro conjI)
qed

text \<open>
  C4. The deadline of \<open>run(duration)\<close> is \<open>start + duration - shutdown_duration\<close>, and a
  ready run is its loop under that deadline, started with no futures. A guard evaluated
  when the clock has reached the deadline, or when the Stopper reports done on the current
  state, ends the loop with the frame as it is: the body is not entered and no later tick
  is read. In an iteration where the Stopper reports done after the wait, the body changes
  nothing: nothing is harvested and nothing is scheduled.
\<close>

theorem run_deadline_and_stop_guard:
  "deadline start (Some dur) sd = Some (start + dur - sd) \<and>
   (ready r \<and> work_directory r = Some wd \<and> pool r = Some pl \<and> state r = Some st \<longrightarrow>
      fst (run C start ticks duration r d)
        = fst (run_loop C (max_workers r) (deadline start duration (shutdown_duration r)) ticks
                 \<lparr>futures = [], fr_pool = pl, fr_state = st, peak = 0\<rparr>) \<and>
      fst (snd (run C start ticks duration r d))
        = Some (snd (run_loop C (max_workers r) (deadline start duration (shutdown_duration r)) ticks
                 \<lparr>futures = [], fr_pool = pl, fr_state = st, peak = 0\<rparr>))) \<and>
   (e \<le> now tk \<or> stop_done C (amb_guard tk) (fr_state fr) \<longrightarrow>
      run_loop C mw (Some e) (tk # tks) fr = (Finished, fr)) \<and>
   (stop_done C (amb_guard tk) (fr_state fr) \<longrightarrow> run_loop C mw None (tk # tks) fr = (Finished, fr)) \<and>
   (stop_done C (amb_wait tk) (fr_state fr) \<longrightarrow> loop_body C mw tk fr = (None, fr))"
proof -
  have a: "deadline start (Some dur) sd = Some (start + dur - sd)" by (simp add: deadline_def)
  have b: "fst (run C start ticks duration r d)
        = fst (run_loop C (max_workers r) (deadline start duration (shutdown_duration r)) ticks
                 \<lparr>futures = [], fr_pool = pl, fr_state = st, peak = 0\<rparr>) \<and>
      fst (snd (run C start ticks duration r d))
        = Some (snd (run_loop C (max_workers r) (deadline start duration (shutdown_duration r)) ticks
                 \<lparr>futures = [], fr_pool = pl, fr_state = st, peak = 0\<rparr>))"
    if "ready r" "work_directory r = Some wd" "pool r = Some pl" "state r = Some st"
    using run_ready_unfold [OF that, of C start duration ticks _ _ d]
    by (metis fst_conv snd_conv prod.collapse)
  have c: "run_loop C mw (Some e) (tk # tks) fr = (Finished, fr)"
    if "e \<le> now tk \<or> stop_done C (amb_guard tk) (fr_state fr)"
    using that by (auto simp: before_deadline_def)
  have d: "run_loop C mw None (tk # tks) fr = (Finished, fr)"
    if "stop_done C (amb_guard tk) (fr_state fr)"
    using that by simp
  have e: "loop_body C mw tk fr = (None, fr)" if "stop_done C (amb_wait tk) (fr_state fr)"
    using that by (simp add: loop_body_def split_beta)
  show ?thesis using a b c d e by blast
qed


text \<open>
  C4, at a concrete input: a duration of 60 seconds with 30 seconds of shutdown gives the
  deadline 30; a guard at clock 30 ends the loop; a wall-clock stopper with limit 10 ends it
  at clock 12, and when it fires during the wait (guard at 5, check after the wait at 12)
  the completed future 0 is not harvested.
\<close>

theorem run_deadline_and_stop_guard_witness:
  "deadline 0 (Some 60) 30 = Some 30 \<and>
   ready (demo_prepared 100 10) \<and>
   work_directory (demo_prepared 100 10) = Some [''work'', ''run_a1b2c3d4''] \<and>
   fst (run (demo_collab 100 10) 0 [demo_tick 5 [] 5, demo_tick 30 [0] 30] (Some 60)
          (demo_prepared 100 10) (demo_prepared_disk 100)) = Finished \<and>
   outstanding (run (demo_collab 100 10) 0 [demo_tick 5 [] 5, demo_tick 30 [0] 30] (Some 60)
          (demo_prepared 100 10) (demo_prepared_disk 100)) = [0, 1, 2] \<and>
   (30 :: real) \<le> now (demo_tick 30 [0] 30) \<and>
   run_loop (demo_collab 100 10) 2 (Some 30) [demo_tick 30 [0] 30, demo_tick 35 [] 35] demo_frame
     = (Finished, demo_frame) \<and>
   stop_done (demo_collab 100 10) (amb_guard (demo_tick 12 [0] 12)) (fr_state demo_frame) \<and>
   run_loop (demo_collab 100 10) 2 None [demo_tick 12 [0] 12, demo_tick 17 [] 17] demo_frame
     = (Finished, demo_frame) \<and>
   \<not> stop_done (demo_collab 100 10) (amb_guard \<lparr>now = 5, amb_guard = 5, completed = [0], amb_wait = 12\<rparr>)
        (fr_state demo_frame) \<and>
   stop_done (demo_collab 100 10) (amb_wait \<lparr>now = 5, amb_guard = 5, completed = [0], amb_wait = 12\<rparr>)
        (fr_state demo_frame) \<and>
   loop_body (demo_collab 100 10) 2 \<lparr>now = 5, amb_guard = 5, completed = [0], amb_wait = 12\<rparr> demo_frame
     = (None, demo_frame)"
proof -
  let ?C = "demo_collab 100 10"
  let ?late = "\<lparr>now = 5, amb_guard = 5, completed = [0], amb_wait = 12\<rparr> :: real tick"
  note inst = run_deadline_and_stop_guard [where start = 0 and dur = 60 and sd = 30 and C = ?C
      and e = 30 and tk = "demo_tick 30 [0] 30" and fr = demo_frame and mw = 2
      and tks = "[demo_tick 35 [] 35]"]
  have a: "deadline 0 (Some 60) 30 = Some 30" using inst by simp
  have p: "ready (demo_prepared 100 10)"
    "work_directory (demo_prepared 100 10) = Some [''work'', ''run_a1b2c3d4'']"
    by (simp_all add: demo_prepared_def)
  have r: "fst (run ?C 0 [demo_tick 5 [] 5, demo_tick 30 [0] 30] (Some 60)
          (demo_prepared 100 10) (demo_prepared_disk 100)) = Finished"
    "outstanding (run ?C 0 [demo_tick 5 [] 5, demo_tick 30 [0] 30] (Some 60)
          (demo_prepared 100 10) (demo_prepared_disk 100)) = [0, 1, 2]"
    by code_simp+
  have g1: "(30 :: real) \<le> now (demo_tick 30 [0] 30)" by (simp add: demo_tick_def)
  have c1: "run_loop ?C 2 (Some 30) [demo_tick 30 [0] 30, demo_tick 35 [] 35] demo_frame
     = (Finished, demo_frame)"
    using inst g1 by blast
  have g2: "stop_done ?C (amb_guard (demo_tick 12 [0] 12)) (fr_state demo_frame)" by code_simp
  have c2: "run_loop ?C 2 None [demo_tick 12 [0] 12, demo_tick 17 [] 17] demo_frame
     = (Finished, demo_frame)"
    using run_deadline_and_stop_guard [where C = ?C and tk = "demo_tick 12 [0] 12"
        and fr = demo_frame and mw = 2 and tks = "[demo_tick 17 [] 17]"] g2
    by blast
  have g3: "\<not> stop_done ?C (amb_guard ?late) (fr_state demo_frame)"
    "stop_done ?C (amb_wait ?late) (fr_state demo_frame)"
    by code_simp+
  have c3: "loop_body ?C 2 ?late demo_frame = (None, demo_frame)"
    using run_deadline_and_stop_guard [where C = ?C and tk = ?late and fr = demo_frame and mw = 2]
      g3(2)
    by blast
  show ?thesis using a p r g1 c1 g2 c2 g3 c3 by (intro conjI)
qed

lemma harvest_one_error:
  "harvest_one C f fr = (Some e, fr1) \<Longrightarrow> e \<noteq> NotReady"
  by (auto simp: harvest_one_def finish_def submit_def resultdb_add_def
      split: option.splits sum.splits proc_outcome.splits if_splits)

lemma harvest_error: "harvest C fs fr = (Some e, fr1) \<Longrightarrow> e \<noteq> NotReady"
proof (induction fs arbitrary: fr)
  case Nil
  then show ?case by simp
next
  case (Cons f fs)
  obtain eo1 fr2 where h: "harvest_one C f fr = (eo1, fr2)" by (cases "harvest_one C f fr")
  show ?case
  proof (cases eo1)
    case None
    then show ?thesis using Cons h by simp
  next
    case (Some e1)
    then show ?thesis using Cons.prems h harvest_one_error [of C f fr e1 fr2] by simp
  qed
qed

lemma schedule_new_error: "schedule_new C n fr = (Some e, fr1) \<Longrightarrow> e \<noteq> NotReady"
proof (induction n arbitrary: fr)
  case 0
  then show ?case by simp
next
  case (Suc n)
  show ?case
  proof (cases "suggest C (fr_state fr)")
    case (Inl e1)
    then have "e1 \<noteq> NotReady" by (auto simp: suggest_def split: sum.splits)
    then show ?thesis using Suc.prems Inl by simp
  next
    case (Inr x)
    then show ?thesis using Suc by (cases x) (auto simp: split_beta Let_def)
  qed
qed

lemma loop_body_error: "loop_body C mw tk fr = (Some e, fr1) \<Longrightarrow> e \<noteq> NotReady"
proof -
  assume a: "loop_body C mw tk fr = (Some e, fr1)"
  obtain dn rn where w: "wait_first_completed (futures fr) (completed tk) = (dn, rn)"
    by (cases "wait_first_completed (futures fr) (completed tk)")
  obtain eo fr2 where h: "harvest C dn fr = (eo, fr2)" by (cases "harvest C dn fr")
  show ?thesis
  proof (cases eo)
    case None
    then show ?thesis
      using a w h schedule_new_error [of C "n_new_trials mw rn" fr2 e fr1]
      by (simp add: loop_body_def split: if_splits)
  next
    case (Some e1)
    then show ?thesis
      using a w h harvest_error [of C dn fr e1 fr2]
      by (simp add: loop_body_def split: if_splits)
  qed
qed

lemma run_loop_error: "run_loop C mw e tks fr = (Propagated err, fr1) \<Longrightarrow> err \<noteq> NotReady"
proof (induction tks arbitrary: fr)
  case Nil
  then show ?case by simp
next
  case (Cons tk tks)
  obtain eo fr2 where b: "loop_body C mw tk fr = (eo, fr2)" by (cases "loop_body C mw tk fr")
  show ?case
  proof (cases eo)
    case None
    then show ?thesis using Cons b by (simp split: if_splits)
  next
    case (Some e1)
    then show ?thesis
      using Cons.prems b loop_body_error [of C mw tk fr e1 fr2] by (simp split: if_splits)
  qed
qed

text \<open>
  C6. \<open>run\<close> on a newly constructed object fails with the assertion of line 112 and
  changes nothing. After a \<open>prepare\<close> that completed, the object is ready and no
  execution of \<open>run\<close> ends with that assertion.
\<close>

theorem run_asserts_ready:
  "run C start ticks duration (Run_init C' s ev tmo ce nm rid mw sd wpl) d
     = (Propagated NotReady, None, Run_init C' s ev tmo ce nm rid mw sd wpl, d) \<and>
   (prepare C directory r0 d0 = Inr (r, d1) \<longrightarrow>
      ready r \<and> fst (run C start ticks duration r d2) \<noteq> Propagated NotReady)"
proof -
  have a: "run C start ticks duration (Run_init C' s ev tmo ce nm rid mw sd wpl) d
     = (Propagated NotReady, None, Run_init C' s ev tmo ce nm rid mw sd wpl, d)"
    by (simp add: run_def Run_init_def)
  have b: "ready r \<and> fst (run C start ticks duration r d2) \<noteq> Propagated NotReady"
    if h: "prepare C directory r0 d0 = Inr (r, d1)"
  proof -
    from prepare_result [OF h] obtain wd pl st where
      p: "ready r" "work_directory r = Some wd" "pool r = Some pl" "state r = Some st"
      by auto
    obtain res fr where
      l: "run_loop C (max_workers r) (deadline start duration (shutdown_duration r)) ticks
            \<lparr>futures = [], fr_pool = pl, fr_state = st, peak = 0\<rparr> = (res, fr)"
      by (cases "run_loop C (max_workers r) (deadline start duration (shutdown_duration r)) ticks
            \<lparr>futures = [], fr_pool = pl, fr_state = st, peak = 0\<rparr>")
    have "res \<noteq> Propagated NotReady" using run_loop_error [of C _ _ ticks _ NotReady fr] l by auto
    then show ?thesis using p(1) run_ready_unfold [OF p l, of d2] by simp
  qed
  show ?thesis using a b by blast
qed

text \<open>C6, at a concrete input: the run built without a name, before and after \<open>prepare\<close>.\<close>

theorem run_asserts_ready_witness:
  "run (demo_collab 2 1000) 0 [demo_tick 0 [] 0] None (demo_run 2 1000) demo_disk
     = (Propagated NotReady, None, demo_run 2 1000, demo_disk) \<and>
   prepare (demo_collab 2 1000) [''work''] (demo_run 2 1000) demo_disk
     = Inr (demo_prepared 2 1000, demo_prepared_disk 2) \<and>
   ready (demo_prepared 2 1000) \<and>
   fst (run (demo_collab 2 1000) 0 [demo_tick 0 [] 0] None (demo_prepared 2 1000) (demo_prepared_disk 2))
     \<noteq> Propagated NotReady \<and>
   fst (run (demo_collab 2 1000) 0 [demo_tick 0 [] 0] None (demo_prepared 2 1000) (demo_prepared_disk 2))
     = StillRunning"
proof -
  have h: "prepare (demo_collab 2 1000) [''work''] (demo_run 2 1000) demo_disk
     = Inr (demo_prepared 2 1000, demo_prepared_disk 2)"
    by (rule demo_prepare)
  note inst = run_asserts_ready [where C = "demo_collab 2 1000" and start = 0
      and ticks = "[demo_tick 0 [] 0]" and duration = None and C' = "demo_collab 2 1000" and s = 0
      and ev = "CDict [(''kind'', CStr ''eval'')]" and tmo = "Some 1" and ce = "[''TimeoutError'']"
      and nm = None and rid = "''a1b2c3d4e5''" and mw = 2 and sd = 30 and wpl = 5 and d = demo_disk
      and directory = "[''work'']" and ?r0.0 = "demo_run 2 1000" and ?d0.0 = demo_disk
      and r = "demo_prepared 2 1000" and ?d1.0 = "demo_prepared_disk 2"
      and ?d2.0 = "demo_prepared_disk 2"]
  have a: "run (demo_collab 2 1000) 0 [demo_tick 0 [] 0] None (demo_run 2 1000) demo_disk
     = (Propagated NotReady, None, demo_run 2 1000, demo_disk)"
    using inst by (simp add: demo_run_def)
  have b: "ready (demo_prepared 2 1000)"
    "fst (run (demo_collab 2 1000) 0 [demo_tick 0 [] 0] None (demo_prepared 2 1000) (demo_prepared_disk 2))
       \<noteq> Propagated NotReady"
    using inst h by blast+
  have c: "fst (run (demo_collab 2 1000) 0 [demo_tick 0 [] 0] None (demo_prepared 2 1000)
             (demo_prepared_disk 2)) = StillRunning"
    by code_simp
  show ?thesis using a h b c by (intro conjI)
qed

text \<open>
  C7 fails on the code. Constructed with an explicit name, the object has no \<open>name\<close>
  attribute (the constructor assigns it only when the argument is \<open>None\<close>), and
  \<open>prepare\<close> raises \<open>AttributeError\<close> before it creates anything. Constructed without
  a name, the name is \<open>humanize\<close> of the run's id, and \<open>prepare\<close> creates the directory
  \<open>run_<name>\<close> and writes \<open>run.yml\<close> with the configuration carrying that name.
\<close>

theorem explicit_name_is_dropped:
  "name (Run_init C s ev tmo ce (Some n) rid mw sd wpl) = None \<and>
   prepare C directory (Run_init C s ev tmo ce (Some n) rid mw sd wpl) d
     = Inl (AttributeError ''name'') \<and>
   name (Run_init C s ev tmo ce None rid mw sd wpl) = Some (humanize C rid) \<and>
   (\<exists>r' d'. prepare C directory (Run_init C s ev tmo ce None rid mw sd wpl) d = Inr (r', d') \<and>
      work_directory r' = Some (directory @ [''run_'' @ humanize C rid]) \<and>
      directory @ [''run_'' @ humanize C rid] \<in> dirs d' \<and>
      files d' (directory @ [''run_'' @ humanize C rid, ''run.yml''])
        = Some (ConfigFile (get_config C (Run_init C s ev tmo ce None rid mw sd wpl) (humanize C rid))))"
  by (simp add: Run_init_def prepare_def Let_def makedir_def save_yaml_def)

text \<open>
  C5 fails on the code. The run of two workers and a budget of two successes returns with
  trials 0 (loss 0.9, nothing refined) and 1 (loss 0.2, refined to \<open>x = 1.5\<close>) recorded.
  \<open>write_results\<close> writes the tape and \<open>suggestion-0\<close>, \<open>suggestion-1\<close> from
  \<open>top_suggestions\<close>; the refined ranking has a non-empty entry, and the files
  \<open>refined_suggestion-0\<close>, \<open>refined_suggestion-1\<close> hold the configurations of
  \<open>top_suggestions\<close> again (line 159), not those of \<open>top_refined_suggestions\<close>.
\<close>

theorem refined_files_hold_top_suggestions:
  "fst (run (demo_collab 2 1000) 0 [demo_tick 0 [] 0, demo_tick 5 [0, 1] 5, demo_tick 10 [] 10] None
          (demo_prepared 2 1000) (demo_prepared_disk 2)) = Finished \<and>
   map_option evals (state (fst (snd (snd
      (run (demo_collab 2 1000) 0 [demo_tick 0 [] 0, demo_tick 5 [0, 1] 5, demo_tick 10 [] 10] None
          (demo_prepared 2 1000) (demo_prepared_disk 2))))))
     = Some [(0, Success (9 / 10, demo_config 0, CDict [])),
             (1, Success (2 / 10, demo_config 1, CDict [(''x'', CNum (3 / 2))]))] \<and>
   top_suggestions (demo_collab 2 1000)
      [(0, Success (9 / 10, demo_config 0, CDict [])),
       (1, Success (2 / 10, demo_config 1, CDict [(''x'', CNum (3 / 2))]))]
     = [CDict [(''x'', CNum 1)], CDict [(''x'', CNum 0)]] \<and>
   top_refined_suggestions (demo_collab 2 1000)
      [(0, Success (9 / 10, demo_config 0, CDict [])),
       (1, Success (2 / 10, demo_config 1, CDict [(''x'', CNum (3 / 2))]))]
     = [CDict [(''x'', CNum (3 / 2))], CDict []] \<and>
   files (snd (snd (snd
      (run (demo_collab 2 1000) 0 [demo_tick 0 [] 0, demo_tick 5 [0, 1] 5, demo_tick 10 [] 10] None
          (demo_prepared 2 1000) (demo_prepared_disk 2)))))
      [''work'', ''run_a1b2c3d4'', ''suggestion-0'']
     = Some (ConfigFile (CDict [(''x'', CNum 1)])) \<and>
   files (snd (snd (snd
      (run (demo_collab 2 1000) 0 [demo_tick 0 [] 0, demo_tick 5 [0, 1] 5, demo_tick 10 [] 10] None
          (demo_prepared 2 1000) (demo_prepared_disk 2)))))
      [''work'', ''run_a1b2c3d4'', ''refined_suggestion-0'']
     = Some (ConfigFile (CDict [(''x'', CNum 1)])) \<and>
   files (snd (snd (snd
      (run (demo_collab 2 1000) 0 [demo_tick 0 [] 0, demo_tick 5 [0, 1] 5, demo_tick 10 [] 10] None
          (demo_prepared 2 1000) (demo_prepared_disk 2)))))
      [''work'', ''run_a1b2c3d4'', ''refined_suggestion-1'']
     = Some (ConfigFile (CDict [(''x'', CNum 0)]))"
  by code_simp

section \<open>Properties of \<open>convert\<close>\<close>

text \<open>
  C10. With origin equal to target, \<open>convert\<close> returns the property value unchanged,
  whatever the data object is; with origin different from target and a data family other
  than kaggle it raises (the exception carries \<open>data.name\<close>).
\<close>

theorem convert_same_unit_and_foreign_family:
  "convert data prop_v u u = Inr prop_v \<and>
   (origin \<noteq> target \<and> d_family data \<noteq> ''kaggle''
      \<longrightarrow> convert data prop_v origin target = Inl (Exception (d_name data)))"
  by (simp add: convert_def)

text \<open>
  C10, at a concrete input: a data object of family qm9, with equal labels and with the
  labels fec and fe.
\<close>

theorem convert_same_unit_and_foreign_family_witness:
  "convert \<lparr>d_family = ''qm9'', d_name = ''qm9-all'', d_p = Map.empty\<rparr> 3 ''fe'' ''fe'' = Inr 3 \<and>
   ''fec'' \<noteq> ''fe'' \<and> ''qm9'' \<noteq> ''kaggle'' \<and>
   convert \<lparr>d_family = ''qm9'', d_name = ''qm9-all'', d_p = Map.empty\<rparr> 3 ''fec'' ''fe''
     = Inl (Exception ''qm9-all'')"
  using convert_same_unit_and_foreign_family
    [of "\<lparr>d_family = ''qm9'', d_name = ''qm9-all'', d_p = Map.empty\<rparr>" 3 "''fe''" "''fec''" "''fe''"]
  by simp

end
